theory Spec2Isabelle
  imports Complex_Main
begin

section \<open>Errors\<close>

text \<open>
  The exceptions of the two scripts, as values. \<open>ValueError\<close> carries its message, so that
  the guard of \<open>integrate_rd\<close> can be told from NumPy's own value errors. An exception
  raised inside the chemreac library (grid generation, the solver, plotting) is whatever
  error value the collaborator returns; \<open>Raised\<close> is there for such foreign exceptions.
\<close>

datatype error =
    ValueError string
  | IndexError
  | TypeError
  | ZeroDivisionError
  | Raised string

section \<open>NumPy arrays\<close>

text \<open>
  An \<open>ndarray\<close> is its shape and its elements in row-major order, as NumPy stores a
  C-contiguous array. Floats are idealised as real numbers: rounding, overflow, signed
  zeros, \<open>nan\<close> and \<open>inf\<close> have no counterpart here. NumPy array arithmetic reports an
  invalid operation (division by zero, the root of a negative number) by a warning and a
  non-finite element, never by an exception, so these operations have no error branch
  below; at such elements the real value computed here stands for nothing.
\<close>

record ndarray =
  shape :: "nat list"
  data :: "real list"

definition array1 :: "real list \<Rightarrow> ndarray" where
  "array1 xs = \<lparr>shape = [length xs], data = xs\<rparr>"

definition ndim :: "ndarray \<Rightarrow> nat" where
  "ndim a = length (shape a)"

definition size_nd :: "ndarray \<Rightarrow> nat" where
  "size_nd a = prod_list (shape a)"

text \<open>An operation with a Python scalar, or a universal function of one argument.\<close>

definition nd_map :: "(real \<Rightarrow> real) \<Rightarrow> ndarray \<Rightarrow> ndarray" where
  "nd_map f a = \<lparr>shape = shape a, data = map f (data a)\<rparr>"

text \<open>The invariant of an array: as many elements as the shape says.\<close>

definition well_formed :: "ndarray \<Rightarrow> bool" where
  "well_formed a = (length (data a) = size_nd a)"

text \<open>All index tuples of a shape, in row-major order, and the offset of one.\<close>

fun indices :: "nat list \<Rightarrow> nat list list" where
  "indices [] = [[]]"
| "indices (n # ns) = concat (map (\<lambda>i. map ((#) i) (indices ns)) [0..<n])"

definition ravel :: "nat list \<Rightarrow> nat list \<Rightarrow> nat" where
  "ravel s idx = foldl (\<lambda>acc (n, i). acc * n + i) 0 (zip s idx)"

definition item :: "ndarray \<Rightarrow> nat list \<Rightarrow> real" where
  "item a idx = data a ! ravel (shape a) idx"

text \<open>
  Broadcasting: the shapes are aligned at their last axis; two extents agree when they
  are equal or one of them is 1. \<open>broadcast_rev\<close> works on the reversed shapes.
\<close>

fun broadcast_rev :: "nat list \<Rightarrow> nat list \<Rightarrow> error + nat list" where
  "broadcast_rev [] ys = Inr ys"
| "broadcast_rev xs [] = Inr xs"
| "broadcast_rev (x # xs) (y # ys) =
     (if x = y \<or> y = 1 then
        (case broadcast_rev xs ys of Inl e \<Rightarrow> Inl e | Inr zs \<Rightarrow> Inr (x # zs))
      else if x = 1 then
        (case broadcast_rev xs ys of Inl e \<Rightarrow> Inl e | Inr zs \<Rightarrow> Inr (y # zs))
      else Inl (ValueError ''operands could not be broadcast together''))"

definition broadcast_shape :: "nat list \<Rightarrow> nat list \<Rightarrow> error + nat list" where
  "broadcast_shape s1 s2 =
     (case broadcast_rev (rev s1) (rev s2) of Inl e \<Rightarrow> Inl e | Inr zs \<Rightarrow> Inr (rev zs))"

text \<open>The index into an operand of shape \<open>s\<close> that a result index \<open>idx\<close> reads.\<close>

definition stretch :: "nat list \<Rightarrow> nat list \<Rightarrow> nat list" where
  "stretch s idx =
     map (\<lambda>(n, i). if n = 1 then 0 else i) (zip s (drop (length idx - length s) idx))"

definition broadcast2 :: "(real \<Rightarrow> real \<Rightarrow> real) \<Rightarrow> ndarray \<Rightarrow> ndarray \<Rightarrow> error + ndarray" where
  "broadcast2 f a b =
     (case broadcast_shape (shape a) (shape b) of
        Inl e \<Rightarrow> Inl e
      | Inr s \<Rightarrow>
          Inr \<lparr>shape = s,
               data = map (\<lambda>idx. f (item a (stretch (shape a) idx))
                                    (item b (stretch (shape b) idx))) (indices s)\<rparr>)"

text \<open>
  \<open>a.reshape(dims)\<close>: a negative extent is the unknown one and is inferred from the
  size of the array. More than one unknown extent is a \<open>ValueError\<close>, and so is a total
  that does not fit the size.
\<close>

definition reshape :: "ndarray \<Rightarrow> int list \<Rightarrow> error + ndarray" where
  "reshape a dims =
     (let known = prod_list (map nat (filter (\<lambda>d. 0 \<le> d) dims));
          unknown = length (filter (\<lambda>d. d < 0) dims)
      in if unknown > 1 then
           Inl (ValueError ''can only specify one unknown dimension'')
         else if unknown = 1 then
           (if known = 0 \<or> size_nd a mod known \<noteq> 0 then
              Inl (ValueError ''cannot reshape array'')
            else Inr \<lparr>shape = map (\<lambda>d. if d < 0 then size_nd a div known else nat d) dims,
                      data = data a\<rparr>)
         else if known = size_nd a then Inr \<lparr>shape = map nat dims, data = data a\<rparr>
         else Inl (ValueError ''cannot reshape array''))"

section \<open>The analytic reference: \<open>analytic\<close> of const_surf_conc.py\<close>

text \<open>
  \<open>scipy.special.erfc\<close> is a parameter (\<open>erfc\<close>). The arguments \<open>x0\<close> and \<open>xend\<close> are
  unused by the source. \<open>(D*t)**0.5\<close> on an array is the square root.
\<close>

definition analytic ::
  "(real \<Rightarrow> real) \<Rightarrow> ndarray \<Rightarrow> ndarray \<Rightarrow> real \<Rightarrow> real \<Rightarrow> real \<Rightarrow> bool \<Rightarrow> real \<Rightarrow> error + ndarray" where
  "analytic erfc x t D x0 xend logx c_s =
     (let t1 = (if ndim t = 1 then \<lparr>shape = [size_nd t, 1], data = data t\<rparr> else t);
          x1 = (if logx then nd_map exp x else x)
      in case broadcast2 (\<lambda>a b. a / b) x1 (nd_map (\<lambda>v. 2 * v) (nd_map sqrt (nd_map (\<lambda>v. D * v) t1))) of
           Inl e \<Rightarrow> Inl e
         | Inr q \<Rightarrow> Inr (nd_map (\<lambda>v. c_s * v) (nd_map erfc q)))"

section \<open>Array operations used by \<open>integrate_rd\<close>\<close>

definition and_then :: "error + 'a \<Rightarrow> ('a \<Rightarrow> error + 'b) \<Rightarrow> error + 'b" where
  "and_then r f = (case r of Inl e \<Rightarrow> Inl e | Inr v \<Rightarrow> f v)"

text \<open>
  \<open>np.linspace(start, stop, num)\<close> with the end point included: a negative \<open>num\<close> is a
  \<open>ValueError\<close>; the samples are \<open>i * step + start\<close>, and the last one is set to
  \<open>stop\<close> when there are at least two.
\<close>

definition linspace :: "real \<Rightarrow> real \<Rightarrow> int \<Rightarrow> error + ndarray" where
  "linspace start stop num =
     (if num < 0 then Inl (ValueError ''Number of samples must be non-negative'')
      else
        let n = nat num;
            delta = stop - start;
            y = map (\<lambda>i. (if n > 1 then real i * (delta / real (n - 1)) else real i * delta) + start) [0..<n]
        in Inr (array1 (if n > 1 then y[n - 1 := stop] else y)))"

text \<open>\<open>a[0, ...]\<close>: the first entry along the first axis.\<close>

definition first_entry :: "ndarray \<Rightarrow> error + ndarray" where
  "first_entry a =
     (case shape a of
        [] \<Rightarrow> Inl IndexError
      | n # rest \<Rightarrow>
          if n = 0 then Inl IndexError
          else Inr \<lparr>shape = rest, data = take (prod_list rest) (data a)\<rparr>)"

definition zeros_like :: "ndarray \<Rightarrow> ndarray" where
  "zeros_like a = \<lparr>shape = shape a, data = replicate (size_nd a) 0\<rparr>"

text \<open>\<open>a[0, :] = v\<close>: fills the first entry along the first axis of an array of at least two axes.\<close>

definition set_first_row :: "ndarray \<Rightarrow> real \<Rightarrow> error + ndarray" where
  "set_first_row a v =
     (case shape a of
        n # m # rest \<Rightarrow>
          if n = 0 then Inl IndexError
          else Inr \<lparr>shape = shape a,
                    data = replicate (prod_list (m # rest)) v @ drop (prod_list (m # rest)) (data a)\<rparr>
      | _ \<Rightarrow> Inl IndexError)"

text \<open>\<open>np.concatenate((a, b), axis=1)\<close>.\<close>

definition concatenate_axis1 :: "ndarray \<Rightarrow> ndarray \<Rightarrow> error + ndarray" where
  "concatenate_axis1 a b =
     (case (shape a, shape b) of
        (n # ma # ra, n' # mb # rb) \<Rightarrow>
          if n = n' \<and> ra = rb then
            (let ca = ma * prod_list ra; cb = mb * prod_list rb
             in Inr \<lparr>shape = n # (ma + mb) # ra,
                      data = concat (map (\<lambda>i. take ca (drop (i * ca) (data a)) @
                                                take cb (drop (i * cb) (data b))) [0..<n])\<rparr>)
          else Inl (ValueError ''all the input array dimensions except for the concatenation axis must match exactly'')
      | _ \<Rightarrow> Inl (ValueError ''axis 1 is out of bounds''))"

text \<open>\<open>a[:, :, j]\<close> on an array of at least three axes.\<close>

definition take_species :: "ndarray \<Rightarrow> nat \<Rightarrow> error + ndarray" where
  "take_species a j =
     (case shape a of
        n # m # c # rest \<Rightarrow>
          if j < c then
            (let w = prod_list rest
             in Inr \<lparr>shape = n # m # rest,
                      data = concat (map (\<lambda>i. take w (drop ((i * c + j) * w) (data a))) [0..<n * m])\<rparr>)
          else Inl IndexError
      | _ \<Rightarrow> Inl IndexError)"

text \<open>\<open>np.average(a)\<close>: the mean of all elements.\<close>

definition average :: "ndarray \<Rightarrow> real" where
  "average a = sum_list (data a) / real (size_nd a)"

section \<open>The collaborators of \<open>integrate_rd\<close>\<close>

text \<open>
  The arguments of \<open>integrate_rd\<close>, with the defaults of its signature.
\<close>

record params =
  p_D :: real
  p_t0 :: real
  p_tend :: real
  p_x0 :: real
  p_xend :: real
  p_N :: int
  p_nt :: int
  p_logt :: bool
  p_logy :: bool
  p_logx :: bool
  p_random :: bool
  p_k :: real
  p_nstencil :: int
  p_linterpol :: bool
  p_rinterpol :: bool
  p_num_jacobian :: bool
  p_method :: string
  p_plot :: bool
  p_atol :: real
  p_rtol :: real
  p_factor :: real
  p_random_seed :: int
  p_savefig :: string
  p_verbose :: bool
  p_scaling :: real

definition defaults :: params where
  "defaults = \<lparr>p_D = 2 / 1000, p_t0 = 1, p_tend = 13, p_x0 = 1 / 10 ^ 10, p_xend = 1, p_N = 64,
     p_nt = 42, p_logt = False, p_logy = False, p_logx = False, p_random = False, p_k = 1,
     p_nstencil = 3, p_linterpol = False, p_rinterpol = False, p_num_jacobian = False,
     p_method = ''bdf'', p_plot = False, p_atol = 1 / 10 ^ 6, p_rtol = 1 / 10 ^ 6,
     p_factor = 10 ^ 5, p_random_seed = 42, p_savefig = ''None'', p_verbose = False,
     p_scaling = 1\<rparr>"

text \<open>The keyword arguments handed to the \<open>ReactionDiffusion\<close> constructor.\<close>

record rd_args =
  rd_n :: nat
  rd_stoich_reac :: "nat list list"
  rd_stoich_prod :: "nat list list"
  rd_k :: "real list"
  rd_N :: int
  rd_D :: "real list"
  rd_x :: ndarray
  rd_logy :: bool
  rd_logt :: bool
  rd_logx :: bool
  rd_nstencil :: int
  rd_lrefl :: bool
  rd_rrefl :: bool
  rd_modulated_rxns :: "nat list"
  rd_modulation :: "int list list"
  rd_units :: "string \<Rightarrow> real"
  rd_faraday :: real
  rd_vacuum_permittivity :: real

text \<open>
  What the script calls and does not define: \<open>scipy.special.erfc\<close>, \<open>np.random.seed\<close>,
  and chemreac's \<open>generate_grid\<close>, \<open>ReactionDiffusion\<close> (with its attribute
  \<open>xcenters\<close>), \<open>run\<close> (with the attributes \<open>Cout\<close>, \<open>yout\<close> and \<open>info\<close> of its result),
  \<open>spat_ave_rmsd_vs_time\<close> and the plotting of the \<open>plot\<close> branch. Each is a parameter;
  one that can raise returns an \<open>error\<close> sum. NumPy's global random state is the explicit
  \<open>'g\<close>: seeding replaces it by a state that depends on the seed alone, and grid
  generation reads and advances it.
\<close>

record ('g, 'rd, 'integr, 'info) collaborators =
  scipy_special_erfc :: "real \<Rightarrow> real"
  np_random_seed :: "int \<Rightarrow> error + 'g"
  generate_grid :: "real \<Rightarrow> real \<Rightarrow> int \<Rightarrow> bool \<Rightarrow> bool \<Rightarrow> 'g \<Rightarrow> error + ndarray \<times> 'g"
  ReactionDiffusion :: "rd_args \<Rightarrow> error + 'rd"
  xcenters :: "'rd \<Rightarrow> ndarray"
  run :: "'rd \<Rightarrow> ndarray \<Rightarrow> ndarray \<Rightarrow> real \<Rightarrow> real \<Rightarrow> bool \<Rightarrow> string \<Rightarrow> error + 'integr"
  Cout :: "'integr \<Rightarrow> ndarray"
  yout :: "'integr \<Rightarrow> ndarray"
  info :: "'integr \<Rightarrow> 'info"
  spat_ave_rmsd_vs_time :: "ndarray \<Rightarrow> ndarray \<Rightarrow> error + ndarray"
  plot_results :: "params \<Rightarrow> 'rd \<Rightarrow> 'integr \<Rightarrow> ndarray \<Rightarrow> ndarray \<Rightarrow> real \<Rightarrow> error + unit"

section \<open>\<open>integrate_rd\<close> of const_surf_conc.py\<close>

text \<open>Line 100: \<open>[1 if (i == 0) else 0 for i in range(N)]\<close>.\<close>

definition modulation :: "int \<Rightarrow> int list" where
  "modulation N' = map (\<lambda>i. if i = 0 then 1 else 0) [0..<nat N']"

text \<open>Lines 95-96: a \<open>defaultdict\<close> with default 1 and the key \<open>amount\<close>.\<close>

definition units :: "real \<Rightarrow> error + (string \<Rightarrow> real)" where
  "units scaling =
     (if scaling = 0 then Inl ZeroDivisionError
      else Inr ((\<lambda>_. 1)(''amount'' := 1 / scaling)))"

definition make_rd_args :: "params \<Rightarrow> ndarray \<Rightarrow> (string \<Rightarrow> real) \<Rightarrow> rd_args" where
  "make_rd_args p x u =
     \<lparr>rd_n = 2, rd_stoich_reac = [[0], [1]], rd_stoich_prod = [[1], [0]],
      rd_k = [p_k p, p_factor p * p_k p], rd_N = p_N p, rd_D = [0, p_D p], rd_x = x,
      rd_logy = p_logy p, rd_logt = p_logt p, rd_logx = p_logx p,
      rd_nstencil = p_nstencil p, rd_lrefl = (\<not> p_linterpol p), rd_rrefl = (\<not> p_rinterpol p),
      rd_modulated_rxns = [0, 1], rd_modulation = [modulation (p_N p), modulation (p_N p)],
      rd_units = u, rd_faraday = 1, rd_vacuum_permittivity = 1\<rparr>"

text \<open>
  Lines 89-128, up to the call of the solver. The values that the later lines read are
  returned in a record: the output times, the grid, the constructor's arguments and its
  result, the reference field \<open>Cref\<close> and the initial condition \<open>y0\<close>.
\<close>

record 'rd rd_setup =
  s_tout :: ndarray
  s_x :: ndarray
  s_args :: rd_args
  s_rd :: 'rd
  s_Cref :: ndarray
  s_y0 :: ndarray

definition seed_random :: "('g, 'rd, 'integr, 'info) collaborators \<Rightarrow> int \<Rightarrow> 'g \<Rightarrow> error + 'g" where
  "seed_random ext random_seed g = (if random_seed \<noteq> 0 then np_random_seed ext random_seed else Inr g)"

definition integrate_rd_setup ::
  "('g, 'rd, 'integr, 'info) collaborators \<Rightarrow> params \<Rightarrow> 'g \<Rightarrow> error + 'rd rd_setup \<times> 'g" where
  "integrate_rd_setup ext p g =
     (if p_t0 p = 0 then Inl (ValueError ''t0==0 => Dirac delta function C0 profile.'')
      else
        and_then (seed_random ext (p_random_seed p) g) (\<lambda>g1.
        and_then (linspace (p_t0 p) (p_tend p) (p_nt p)) (\<lambda>tout.
        and_then (units (p_scaling p)) (\<lambda>u.
        and_then (generate_grid ext (p_x0 p) (p_xend p) (p_N p) (p_logx p) (p_random p) g1) (\<lambda>(x, g2).
        and_then (ReactionDiffusion ext (make_rd_args p x u)) (\<lambda>rd.
        and_then (analytic (scipy_special_erfc ext) (xcenters ext rd) tout (p_D p) (p_x0 p) (p_xend p) (p_logx p) 1) (\<lambda>c.
        and_then (reshape c [p_nt p, p_N p, 1]) (\<lambda>Cref.
        and_then (first_entry Cref) (\<lambda>Cref0.
        and_then (set_first_row (zeros_like Cref0) (p_factor p)) (\<lambda>source.
        and_then (concatenate_axis1 source Cref0) (\<lambda>y0.
          Inr (\<lparr>s_tout = tout, s_x = x, s_args = make_rd_args p x u, s_rd = rd,
                 s_Cref = Cref, s_y0 = y0\<rparr>, g2))))))))))))"

text \<open>Lines 136-138: the per-time series and its average.\<close>

definition rmsd_over_atol ::
  "('g, 'rd, 'integr, 'info) collaborators \<Rightarrow> real \<Rightarrow> ndarray \<Rightarrow> ndarray \<Rightarrow> error + ndarray \<times> real" where
  "rmsd_over_atol ext atol C Cref =
     and_then (take_species C 1) (\<lambda>C1.
     and_then (take_species Cref 0) (\<lambda>R0.
     and_then (spat_ave_rmsd_vs_time ext C1 R0) (\<lambda>r.
       let spat_ave_rmsd_over_atol = nd_map (\<lambda>v. v / atol) r;
           tot_ave_rmsd_over_atol = average spat_ave_rmsd_over_atol
       in Inr (spat_ave_rmsd_over_atol, tot_ave_rmsd_over_atol))))"

text \<open>
  The whole function. The two \<open>print\<close> calls of lines 134-135 write nothing that is
  modelled, but their arguments are evaluated and can raise. The result is the returned
  tuple \<open>(tout, Cout, info, rd, tot_ave_rmsd_over_atol)\<close> and the random state left behind.
\<close>

definition integrate_rd ::
  "('g, 'rd, 'integr, 'info) collaborators \<Rightarrow> params \<Rightarrow> 'g \<Rightarrow>
     error + (ndarray \<times> ndarray \<times> 'info \<times> 'rd \<times> real) \<times> 'g" where
  "integrate_rd ext p g =
     and_then (integrate_rd_setup ext p g) (\<lambda>(s, g').
     and_then (run ext (s_rd s) (s_y0 s) (s_tout s) (p_atol p) (p_rtol p) (\<not> p_num_jacobian p) (p_method p)) (\<lambda>integr.
     and_then (and_then (take_species (Cout ext integr) 1) first_entry) (\<lambda>_.
     and_then (and_then (take_species (yout ext integr) 1) first_entry) (\<lambda>_.
     and_then (rmsd_over_atol ext (p_atol p) (Cout ext integr) (s_Cref s)) (\<lambda>(spat, tot).
     and_then (if p_plot p then plot_results ext p (s_rd s) integr (s_Cref s) spat tot else Inr ()) (\<lambda>_.
       Inr ((s_tout s, Cout ext integr, info ext integr, s_rd s, tot), g')))))))"

section \<open>The sweep: \<open>main\<close> of analytic_N_scaling.py\<close>

text \<open>\<open>s.split(',')\<close>: the pieces between commas; never empty.\<close>

fun split_comma :: "string \<Rightarrow> string list" where
  "split_comma [] = [[]]"
| "split_comma (c # cs) =
     (if c = CHR '','' then [] # split_comma cs
      else (case split_comma cs of w # ws \<Rightarrow> (c # w) # ws | [] \<Rightarrow> [[c]]))"

text \<open>A list comprehension over a function that can raise stops at the first exception.\<close>

fun mapM :: "('a \<Rightarrow> error + 'b) \<Rightarrow> 'a list \<Rightarrow> error + 'b list" where
  "mapM f [] = Inr []"
| "mapM f (x # xs) = and_then (f x) (\<lambda>y. and_then (mapM f xs) (\<lambda>ys. Inr (y # ys)))"

text \<open>\<open>xs[i]\<close> and \<open>xs[:k]\<close> of Python, for a non-negative index and any integer bound.\<close>

definition get :: "'a list \<Rightarrow> nat \<Rightarrow> error + 'a" where
  "get xs i = (if i < length xs then Inr (xs ! i) else Inl IndexError)"

definition slice_to :: "'a list \<Rightarrow> int \<Rightarrow> 'a list" where
  "slice_to xs k = (if 0 \<le> k then take (nat k) xs else take (nat (int (length xs) + k)) xs)"

text \<open>
  A slice bound is a Python integer or a Python float. \<open>a[:k]\<close> on a NumPy array takes
  the integer bound as a list does; a float bound is a \<open>TypeError\<close> (slice indices must
  be integers). NumPy before 1.12 truncated a float bound with a deprecation warning.
\<close>

datatype bound = IntBound int | FloatBound real

definition np_slice_to :: "real list \<Rightarrow> bound \<Rightarrow> error + real list" where
  "np_slice_to xs b = (case b of IntBound k \<Rightarrow> Inr (slice_to xs k) | FloatBound v \<Rightarrow> Inl TypeError)"

text \<open>
  \<open>np.log(Ns)\<close> on a list of Python integers: an integer outside the 64-bit range makes
  an array of objects, on which the logarithm is a \<open>TypeError\<close>.
\<close>

definition np_log :: "int list \<Rightarrow> error + real list" where
  "np_log Ns =
     (if list_ex (\<lambda>n. n < - (2 ^ 63) \<or> 2 ^ 64 \<le> n) Ns then Inl TypeError
      else Inr (map (\<lambda>n. ln (real_of_int n)) Ns))"

text \<open>\<open>np.polyval(p, x)\<close> at one point, by Horner's rule.\<close>

definition polyval :: "real list \<Rightarrow> real \<Rightarrow> real" where
  "polyval p x = foldl (\<lambda>acc c. acc * x + c) 0 p"

datatype geom = FLAT | CYLINDRICAL | SPHERICAL

text \<open>\<open>'fcs'[geom]\<close>: the geometry constants of chemreac are 0, 1 and 2.\<close>

fun fcs :: "geom \<Rightarrow> char" where
  "fcs FLAT = CHR ''f''"
| "fcs CYLINDRICAL = CHR ''c''"
| "fcs SPHERICAL = CHR ''s''"

text \<open>
  What one pass of the innermost loop draws when \<open>plot\<close> is set: the subplot
  \<open>gi*2 + ri + 1\<close>, the markers \<open>(Ns, err)\<close>, the dashed line over \<open>Ns[:nNs-si]\<close> and its
  label, which is \<open>str(nstencil) + ': ' + str(round(-p[0], 1))\<close> and is kept here as the
  pair of the two numbers. Axis scales, titles and the legend are left out.
\<close>

record drawing =
  dr_subplot :: nat
  dr_Ns :: "int list"
  dr_err :: "real list"
  dr_line_Ns :: "int list"
  dr_line :: "real list"
  dr_label :: "int \<times> real"

text \<open>
  The collaborators of \<open>main\<close>: the builtins \<open>float\<close>, \<open>int\<close> and \<open>round\<close>,
  \<open>np.polyfit\<close>, \<open>save_and_or_show_plot\<close>, and the \<open>integrate_rd\<close> that the script
  imports from the module \<open>analytic_diffusion\<close>, called with \<open>N\<close>, \<open>nstencil\<close>, \<open>k\<close>,
  \<open>geom\<close>, \<open>atol\<close> and \<open>rtol\<close>. It returns five values; the fourth is the per-time series
  \<open>rmsd_over_atol\<close>, a one-dimensional array, and the other four are kept together as \<open>'o\<close>.
\<close>

record 'o sweep_collaborators =
  py_float :: "string \<Rightarrow> error + real"
  py_int :: "string \<Rightarrow> error + int"
  py_round :: "real \<Rightarrow> int \<Rightarrow> real"
  np_polyfit :: "real list \<Rightarrow> real list \<Rightarrow> nat \<Rightarrow> error + real list"
  analytic_diffusion_integrate_rd :: "int \<Rightarrow> int \<Rightarrow> real \<Rightarrow> char \<Rightarrow> real \<Rightarrow> real \<Rightarrow> error + real list \<times> 'o"
  save_and_or_show_plot :: "drawing list \<Rightarrow> string \<Rightarrow> error + unit"

text \<open>Lines 56-60: the resolution ladder and its length.\<close>

definition ladder :: "'o sweep_collaborators \<Rightarrow> int \<Rightarrow> string option \<Rightarrow> error + int list \<times> int" where
  "ladder ext nNs Ns =
     (case Ns of
        None \<Rightarrow> Inr (map (\<lambda>i. 8 * 2 ^ i) [0..<nat nNs], nNs)
      | Some s \<Rightarrow> and_then (mapM (py_int ext) (split_comma s)) (\<lambda>l. Inr (l, int (length l))))"

text \<open>
  Line 76, \<open>np.average(rmsd_over_atol, axis=1)\<close>: the series of all resolutions are
  stacked into a matrix, which needs them to have one length, and each row is averaged.
\<close>

definition average_axis1 :: "real list list \<Rightarrow> error + real list" where
  "average_axis1 rows =
     (if list_all (\<lambda>r. length r = length (hd rows)) rows
      then Inr (map (\<lambda>r. sum_list r / real (length r)) rows)
      else Inl (ValueError ''axis 1 is out of bounds''))"

text \<open>
  Lines 81-89. The bound \<open>nfit[si]\<close> of the two slices of line 81 is a float, since line
  52 makes every element of \<open>nfit\<close> with \<open>float\<close>; the bound \<open>nNs-si\<close> of line 87 is an
  integer. \<open>plt.subplot(3, 2, num)\<close> raises \<open>ValueError\<close> for \<open>num\<close> above 6.
\<close>

definition fit_and_draw ::
  "'o sweep_collaborators \<Rightarrow> real list \<Rightarrow> int list \<Rightarrow> int \<Rightarrow> nat \<Rightarrow> nat \<Rightarrow> nat \<Rightarrow> int \<Rightarrow> real list
     \<Rightarrow> real list \<Rightarrow> real list \<Rightarrow> error + drawing" where
  "fit_and_draw ext nfit Ns nNs gi ri si nstencil err logNs logerr =
     and_then (get nfit si) (\<lambda>nf.
     and_then (np_slice_to logNs (FloatBound nf)) (\<lambda>xs.
     and_then (np_slice_to logerr (FloatBound nf)) (\<lambda>ys.
     and_then (np_polyfit ext xs ys 1) (\<lambda>p.
       if 6 < gi * 2 + ri + 1 then Inl (ValueError ''num must be 1 <= num <= 6'')
       else
         and_then (np_slice_to logNs (IntBound (nNs - int si))) (\<lambda>line_logNs.
         and_then (get p 0) (\<lambda>p0.
           Inr \<lparr>dr_subplot = gi * 2 + ri + 1, dr_Ns = Ns, dr_err = err,
                dr_line_Ns = slice_to Ns (nNs - int si),
                dr_line = map (\<lambda>v. exp (polyval p v)) line_logNs,
                dr_label = (nstencil, py_round ext (- p0) 1)\<rparr>))))))"

text \<open>
  Lines 69-99, one pass of the innermost loop: the solver is run at every resolution in
  a list comprehension, the five-fold \<open>zip(*...)\<close> unpacking fails on an empty ladder,
  the errors and both logarithms are computed, and the fit is made only when \<open>plot\<close> is
  set.
\<close>

definition sweep_point ::
  "'o sweep_collaborators \<Rightarrow> bool \<Rightarrow> real list \<Rightarrow> int list \<Rightarrow> int \<Rightarrow>
     (nat \<times> geom) \<times> (nat \<times> real) \<times> (nat \<times> int) \<Rightarrow> error + drawing list" where
  "sweep_point ext plot nfit Ns nNs c =
     (case c of ((gi, g), (ri, rate), (si, nstencil)) \<Rightarrow>
        and_then (mapM (\<lambda>N'. analytic_diffusion_integrate_rd ext N' nstencil rate (fcs g)
                               (1 / 10 ^ 8) (1 / 10 ^ 10)) Ns) (\<lambda>results.
          if results = [] then Inl (ValueError ''need more than 0 values to unpack'')
          else
            and_then (average_axis1 (map fst results)) (\<lambda>err.
            and_then (np_log Ns) (\<lambda>logNs.
              let logerr = map ln err
              in if plot then
                   and_then (fit_and_draw ext nfit Ns nNs gi ri si nstencil err logNs logerr)
                     (\<lambda>d. Inr [d])
                 else Inr []))))"

text \<open>The three nested loops of lines 66-68, in the order they run.\<close>

definition combinations :: "real list \<Rightarrow> ((nat \<times> geom) \<times> (nat \<times> real) \<times> (nat \<times> int)) list" where
  "combinations rates =
     List.product (enumerate 0 [FLAT, CYLINDRICAL, SPHERICAL])
       (List.product (enumerate 0 rates) (enumerate 0 [3, 5, 7]))"

text \<open>
  \<open>main\<close>. It returns nothing; the value here is the figure handed to
  \<open>save_and_or_show_plot\<close> (empty without \<open>plot\<close>). An exception anywhere ends the
  function before the figure is saved or shown.
\<close>

definition main ::
  "'o sweep_collaborators \<Rightarrow> bool \<Rightarrow> string \<Rightarrow> int \<Rightarrow> string option \<Rightarrow> string \<Rightarrow> string
     \<Rightarrow> error + drawing list" where
  "main ext plot savefig nNs Ns rates nfit =
     and_then (mapM (py_float ext) (split_comma nfit)) (\<lambda>nfit'.
     and_then (ladder ext nNs Ns) (\<lambda>(Ns', nNs').
     and_then (mapM (py_float ext) (split_comma rates)) (\<lambda>rates'.
     and_then (mapM (sweep_point ext plot nfit' Ns' nNs') (combinations rates')) (\<lambda>ds.
       if plot then
         and_then (save_and_or_show_plot ext (concat ds) savefig) (\<lambda>_. Inr (concat ds))
       else Inr []))))"

section \<open>The complementary error function\<close>

text \<open>
  The function that \<open>scipy.special.erfc\<close> approximates, by the Maclaurin series of the
  error function. It instantiates the parameter of \<open>analytic\<close> where the properties of
  the function itself matter.
\<close>

definition erf_real :: "real \<Rightarrow> real" where
  "erf_real z = 2 / sqrt pi * (\<Sum>n. (- 1) ^ n * z ^ (2 * n + 1) / (fact n * real (2 * n + 1)))"

definition erfc_real :: "real \<Rightarrow> real" where
  "erfc_real z = 1 - erf_real z"

text \<open>
  For the proofs about it: the terms of the series, the same series as a power series
  with its coefficients, and its sum; the antiderivative of the \<open>k\<close>-th power of the
  cosine that vanishes at 0, and its value at \<open>pi / 2\<close>.
\<close>

definition gauss_term :: "real \<Rightarrow> nat \<Rightarrow> real" where
  "gauss_term z n = (- 1) ^ n * z ^ (2 * n + 1) / (fact n * real (2 * n + 1))"

definition gauss_coeff :: "nat \<Rightarrow> real" where
  "gauss_coeff n = (if even n then 0 else (- 1) ^ ((n - 1) div 2) / (fact ((n - 1) div 2) * real n))"

definition gauss_sum :: "real \<Rightarrow> real" where
  "gauss_sum z = (\<Sum>n. gauss_term z n)"

fun cos_integral :: "nat \<Rightarrow> real \<Rightarrow> real" where
  "cos_integral 0 x = x"
| "cos_integral (Suc 0) x = sin x"
| "cos_integral (Suc (Suc k)) x =
     (cos x ^ Suc k * sin x + real (Suc k) * cos_integral k x) / real (Suc (Suc k))"

definition wallis :: "nat \<Rightarrow> real" where
  "wallis k = cos_integral k (pi / 2)"

section \<open>Stand-ins for the collaborators\<close>

text \<open>
  Concrete collaborators, for evaluating the two functions on explicit inputs. The random
  state is a number. The grid has \<open>N + 1\<close> equidistant edges, each shifted by a
  thousandth of the random state when \<open>random\<close> is set; the \<open>ReactionDiffusion\<close> object is
  the record of its arguments and its cell centres are the midpoints of the edges; the
  solver returns the initial state at every output time; \<open>spat_ave_rmsd_vs_time\<close> is the
  root of the mean square difference along the second axis.
\<close>

definition seed_state :: "int \<Rightarrow> error + nat" where
  "seed_state s = (if 0 \<le> s \<and> s < 2 ^ 32 then Inr (nat s)
                   else Inl (ValueError ''Seed must be between 0 and 2**32 - 1''))"

definition equidistant_grid :: "real \<Rightarrow> real \<Rightarrow> int \<Rightarrow> bool \<Rightarrow> bool \<Rightarrow> nat \<Rightarrow> error + ndarray \<times> nat" where
  "equidistant_grid x0 xend N' logx random g =
     (if N' < 1 then Inl (ValueError ''N must be positive'')
      else Inr (array1 (map (\<lambda>i. x0 + (xend - x0) * real i / real_of_int N'
                                   + (if random then real g / 1000 else 0)) [0..<nat N' + 1]),
                if random then Suc g else g))"

definition midpoints :: "rd_args \<Rightarrow> ndarray" where
  "midpoints a = array1 (map (\<lambda>i. (data (rd_x a) ! i + data (rd_x a) ! Suc i) / 2)
                            [0..<length (data (rd_x a)) - 1])"

definition constant_solution ::
  "rd_args \<Rightarrow> ndarray \<Rightarrow> ndarray \<Rightarrow> real \<Rightarrow> real \<Rightarrow> bool \<Rightarrow> string \<Rightarrow> error + ndarray" where
  "constant_solution rd y0 tout atol rtol with_jacobian method =
     Inr \<lparr>shape = size_nd tout # shape y0, data = concat (replicate (size_nd tout) (data y0))\<rparr>"

definition rms_rows :: "ndarray \<Rightarrow> ndarray \<Rightarrow> error + ndarray" where
  "rms_rows a b =
     (case shape a of
        [n, m] \<Rightarrow>
          if shape b = shape a then
            Inr (array1 (map (\<lambda>i. sqrt (sum_list (map (\<lambda>j. (data a ! (i * m + j) - data b ! (i * m + j))\<^sup>2 / real m)
                                                        [0..<m]))) [0..<n]))
          else Inl (ValueError ''shape mismatch'')
      | _ \<Rightarrow> Inl (ValueError ''shape mismatch''))"

definition stand_in :: "(real \<Rightarrow> real) \<Rightarrow> (nat, rd_args, ndarray, unit) collaborators" where
  "stand_in erfc =
     \<lparr>scipy_special_erfc = erfc, np_random_seed = seed_state, generate_grid = equidistant_grid,
      ReactionDiffusion = Inr, xcenters = midpoints, run = constant_solution,
      Cout = (\<lambda>c. c), yout = (\<lambda>c. c), info = (\<lambda>c. ()),
      spat_ave_rmsd_vs_time = rms_rows, plot_results = (\<lambda>p rd integr Cref spat tot. Inr ())\<rparr>"

text \<open>
  Stand-ins for the collaborators of \<open>main\<close>: \<open>float\<close> and \<open>int\<close> on the literals used
  below, rounding half up, the line through the first and the last point for \<open>polyfit\<close>,
  a solver whose error falls as \<open>N\<close> to the power -2 at two output times, and one that
  fails to converge at \<open>N = 16\<close> with the five-point stencil.
\<close>

definition float_literal :: "string \<Rightarrow> error + real" where
  "float_literal s =
     (case map_of [(''0'', 0), (''0.1'', 1 / 10), (''7'', 7), (''5'', 5), (''4'', 4)] s of
        None \<Rightarrow> Inl (ValueError ''could not convert string to float'')
      | Some v \<Rightarrow> Inr v)"

definition int_literal :: "string \<Rightarrow> error + int" where
  "int_literal s =
     (case map_of [(''8'', 8), (''16'', 16), (''32'', 32), (''64'', 64)] s of
        None \<Rightarrow> Inl (ValueError ''invalid literal for int()'')
      | Some v \<Rightarrow> Inr v)"

definition round_half_up :: "real \<Rightarrow> int \<Rightarrow> real" where
  "round_half_up v ndigits = real_of_int \<lfloor>v * 10 ^ nat ndigits + 1 / 2\<rfloor> / 10 ^ nat ndigits"

definition line_through_ends :: "real list \<Rightarrow> real list \<Rightarrow> nat \<Rightarrow> error + real list" where
  "line_through_ends xs ys deg =
     (if xs = [] \<or> length xs \<noteq> length ys then Inl TypeError
      else let slope = (last ys - hd ys) / (last xs - hd xs)
           in Inr [slope, hd ys - slope * hd xs])"

definition second_order :: "int \<Rightarrow> int \<Rightarrow> real \<Rightarrow> char \<Rightarrow> real \<Rightarrow> real \<Rightarrow> error + real list \<times> unit" where
  "second_order N' nstencil k g atol rtol = Inr ([1 / (real_of_int N')\<^sup>2, 1 / (real_of_int N')\<^sup>2], ())"

definition diverging_at_16 :: "int \<Rightarrow> int \<Rightarrow> real \<Rightarrow> char \<Rightarrow> real \<Rightarrow> real \<Rightarrow> error + real list \<times> unit" where
  "diverging_at_16 N' nstencil k g atol rtol =
     (if N' = 16 \<and> nstencil = 5 then Inl (Raised ''no convergence'')
      else second_order N' nstencil k g atol rtol)"

definition sweep_stand_in ::
  "(int \<Rightarrow> int \<Rightarrow> real \<Rightarrow> char \<Rightarrow> real \<Rightarrow> real \<Rightarrow> error + real list \<times> unit) \<Rightarrow> unit sweep_collaborators" where
  "sweep_stand_in solver =
     \<lparr>py_float = float_literal, py_int = int_literal, py_round = round_half_up,
      np_polyfit = line_through_ends, analytic_diffusion_integrate_rd = solver,
      save_and_or_show_plot = (\<lambda>figure savefig. Inr ())\<rparr>"

text \<open>The grid a call of \<open>integrate_rd_setup\<close> generated, if it got that far.\<close>

definition grid_of :: "error + 'rd rd_setup \<times> 'g \<Rightarrow> ndarray option" where
  "grid_of r = (case r of Inl e \<Rightarrow> None | Inr (s, g) \<Rightarrow> Some (s_x s))"

text \<open>A small run: two cells with centres 1 and 3, output times 1 and 4, unit diffusion.\<close>

definition small_case :: params where
  "small_case = defaults\<lparr>p_D := 1, p_t0 := 1, p_tend := 4, p_x0 := 0, p_xend := 4, p_N := 2, p_nt := 2\<rparr>"

text \<open>The same with three cells, of centres 1, 3 and 5.\<close>

definition three_cells :: params where
  "three_cells = small_case\<lparr>p_xend := 6, p_N := 3\<rparr>"

section \<open>Properties\<close>

subsection \<open>Lists\<close>

lemma map_upt_nth: "map (\<lambda>i. f (xs ! i)) [0..<length xs] = map f xs"
  by (rule nth_equalityI) simp_all

lemma concat_map_singleton: "concat (map (\<lambda>j. [f j]) xs) = map f xs"
  by (induction xs) simp_all

lemma take_1_drop: "i < length xs \<Longrightarrow> take (Suc 0) (drop i xs) = [xs ! i]"
  by (metis Cons_nth_drop_Suc take0 take_Suc_Cons)

lemma table_nth:
  "concat (map (\<lambda>i. map (\<lambda>j. h (ts ! i) (xs ! j)) [0..<length xs]) [0..<length ts])
     = concat (map (\<lambda>ti. map (\<lambda>xj. h ti xj) xs) ts)"
proof -
  have "map (\<lambda>i. map (\<lambda>j. h (ts ! i) (xs ! j)) [0..<length xs]) [0..<length ts]
          = map (\<lambda>i. (\<lambda>ti. map (\<lambda>xj. h ti xj) xs) (ts ! i)) [0..<length ts]"
    by (simp add: map_upt_nth)
  also have "\<dots> = map (\<lambda>ti. map (\<lambda>xj. h ti xj) xs) ts"
    by (rule map_upt_nth)
  finally show ?thesis
    by simp
qed

lemma table_entry:
  assumes "i < length ts" and "j < length xs"
  shows "concat (map (\<lambda>ti. map (f ti) xs) ts) ! (i * length xs + j) = f (ts ! i) (xs ! j)"
  using assms
proof (induction ts arbitrary: i)
  case Nil
  then show ?case by simp
next
  case (Cons t ts)
  show ?case
  proof (cases i)
    case 0
    then show ?thesis using Cons.prems by (simp add: nth_append)
  next
    case (Suc k)
    then show ?thesis using Cons.prems Cons.IH[of k] by (simp add: nth_append)
  qed
qed

lemma mapM_Inr_iff: "mapM f xs = Inr ys \<longleftrightarrow> map f xs = map Inr ys"
proof (induction xs arbitrary: ys)
  case Nil
  then show ?case by auto
next
  case (Cons x xs)
  show ?case
  proof (cases "f x")
    case (Inl e)
    then show ?thesis by (auto simp: and_then_def)
  next
    case fx: (Inr y)
    show ?thesis
    proof (cases "mapM f xs")
      case (Inl e)
      have "map f xs \<noteq> map Inr zs" for zs
        using Cons.IH[of zs] Inl by auto
      then show ?thesis using fx Inl by (auto simp: and_then_def)
    next
      case (Inr zs)
      then have "map f xs = map Inr zs" using Cons.IH by simp
      then show ?thesis using fx Inr by (auto simp: and_then_def inj_map_eq_map[OF inj_Inr])
    qed
  qed
qed


lemma split_comma_literals:
  "split_comma ''8,16'' = [''8'', ''16'']"
  "split_comma ''0,0.1'' = [''0'', ''0.1'']"
  "split_comma ''7,5,4'' = [''7'', ''5'', ''4'']"
  by simp_all

subsection \<open>Arrays\<close>

lemma indices_1: "indices [n] = map (\<lambda>j. [j]) [0..<n]"
  by (simp add: concat_map_singleton)

lemma indices_2: "map g (indices [m, n]) = concat (map (\<lambda>i. map (\<lambda>j. g [i, j]) [0..<n]) [0..<m])"
proof -
  have "indices [m, n] = concat (map (\<lambda>i. map (\<lambda>j. [i, j]) [0..<n]) [0..<m])"
    unfolding indices.simps(2)[of m "[n]"] indices_1 by (simp add: o_def)
  then show ?thesis
    by (simp add: map_concat o_def)
qed

lemma length_indices: "length (indices s) = prod_list s"
  by (induction s) (simp_all add: length_concat o_def sum_list_triv)

lemma item_matrix: "item \<lparr>shape = [m, n], data = ds\<rparr> [i, j] = ds ! (i * n + j)"
  by (simp add: item_def ravel_def)

lemma broadcast_shape_col_row: "broadcast_shape [n] [m, 1] = Inr [m, n]"
  by (simp add: broadcast_shape_def del: One_nat_def)

lemma broadcast2_row_col:
  assumes "n = length xs" and "m = length ts"
  shows "broadcast2 f \<lparr>shape = [n], data = xs\<rparr> \<lparr>shape = [m, Suc 0], data = ts\<rparr>
     = Inr \<lparr>shape = [m, n], data = concat (map (\<lambda>ti. map (\<lambda>xj. f xj ti) xs) ts)\<rparr>"
proof -
  have "map (\<lambda>idx. f (item \<lparr>shape = [length xs], data = xs\<rparr> (stretch [length xs] idx))
                      (item \<lparr>shape = [length ts, 1], data = ts\<rparr> (stretch [length ts, 1] idx)))
            (indices [length ts, length xs])
        = concat (map (\<lambda>i. map (\<lambda>j. f (xs ! j) (ts ! i)) [0..<length xs]) [0..<length ts])"
    unfolding indices_2
    apply (rule arg_cong[where f=concat])
    apply (rule map_cong[OF refl])
    apply (rule map_cong[OF refl])
    apply (auto simp add: item_def stretch_def ravel_def)
    done
  then have "broadcast2 f \<lparr>shape = [length xs], data = xs\<rparr> \<lparr>shape = [length ts, 1], data = ts\<rparr>
     = Inr \<lparr>shape = [length ts, length xs], data = concat (map (\<lambda>ti. map (\<lambda>xj. f xj ti) xs) ts)\<rparr>"
    by (simp add: broadcast2_def broadcast_shape_col_row table_nth[of "\<lambda>t x. f x t"] del: One_nat_def indices.simps)
  then show ?thesis
    using assms by simp
qed

lemma broadcast2_well_formed: "broadcast2 f a b = Inr r \<Longrightarrow> well_formed r"
  by (auto simp: broadcast2_def well_formed_def size_nd_def length_indices split: sum.splits)

lemma reshape_3_InrD:
  assumes "reshape c [a, b, 1] = Inr C" and "0 \<le> a" and "1 \<le> b"
  shows "C = \<lparr>shape = [nat a, nat b, 1], data = data c\<rparr> \<and> size_nd c = nat a * nat b"
  using assms by (auto simp: reshape_def Let_def split: if_splits)

lemma reshape_column_InrD:
  assumes "reshape c [a, b, 1] = Inr C" and "well_formed c" and "0 \<le> a"
  shows "\<exists>m. C = \<lparr>shape = [nat a, m, 1], data = data c\<rparr> \<and> length (data c) = nat a * m
     \<and> (0 \<le> b \<longrightarrow> m = nat b)"
  using assms
  by (auto simp: reshape_def Let_def well_formed_def split: if_splits)

lemma take_species_column:
  assumes "length xs = n * m"
  shows "take_species \<lparr>shape = [n, m, 1], data = xs\<rparr> 0 = Inr \<lparr>shape = [n, m], data = xs\<rparr>"
proof -
  have "map (\<lambda>i. take (Suc 0) (drop i xs)) [0..<n * m] = map (\<lambda>i. [xs ! i]) [0..<length xs]"
    unfolding assms by (rule map_cong[OF refl]) (simp add: take_1_drop assms)
  then have "concat (map (\<lambda>i. take (Suc 0) (drop i xs)) [0..<n * m]) = xs"
    by (simp add: concat_map_singleton map_nth)
  then show ?thesis
    by (simp add: take_species_def)
qed

lemma linspace_InrD:
  assumes "linspace a b n = Inr t"
  shows "0 \<le> n \<and> shape t = [nat n] \<and> length (data t) = nat n \<and> (0 < n \<longrightarrow> data t ! 0 = a)"
proof -
  have n: "0 \<le> n" using assms by (auto simp: linspace_def split: if_splits)
  show ?thesis
  proof (cases "nat n > 1")
    case True
    then show ?thesis using assms n
      by (auto simp: linspace_def Let_def array1_def split: if_splits)
  next
    case False
    then show ?thesis using assms n
      by (auto simp: linspace_def Let_def array1_def nth_Cons' split: if_splits)
  qed
qed

subsection \<open>The complementary error function\<close>

lemma summable_gauss_term: "summable (gauss_term z)"
proof (rule summable_comparison_test')
  show "summable (\<lambda>n. \<bar>z\<bar> * ((z\<^sup>2) ^ n /\<^sub>R fact n))"
    by (intro summable_mult sums_summable[OF exp_converges])
  fix n :: nat
  have "norm (gauss_term z n) = \<bar>z\<bar> * (z\<^sup>2) ^ n / (fact n * real (2 * n + 1))"
    by (simp add: gauss_term_def power_mult abs_mult power_abs)
  also have "\<dots> \<le> \<bar>z\<bar> * (z\<^sup>2) ^ n / (fact n * 1)"
    by (intro divide_left_mono mult_left_mono) (simp_all add: mult_nonneg_nonneg)
  finally show "norm (gauss_term z n) \<le> \<bar>z\<bar> * ((z\<^sup>2) ^ n /\<^sub>R fact n)"
    by (simp add: divide_inverse mult_ac)
qed

lemma gauss_coeff_sums: "(\<lambda>n. gauss_coeff n * z ^ n) sums (\<Sum>n. gauss_term z n)"
proof -
  have "(\<lambda>n. if even n then 0 else gauss_term z ((n - 1) div 2)) sums (\<Sum>n. gauss_term z n)"
    by (rule sums_if'[OF summable_sums[OF summable_gauss_term]])
  moreover have "(if even n then 0 else gauss_term z ((n - 1) div 2)) = gauss_coeff n * z ^ n" for n
  proof (cases "even n")
    case True
    then show ?thesis by (simp add: gauss_coeff_def)
  next
    case False
    then obtain k where "n = 2 * k + 1" by (auto elim: oddE)
    then show ?thesis by (simp add: gauss_coeff_def gauss_term_def)
  qed
  ultimately show ?thesis by simp
qed

lemma diffs_gauss_coeff:
  "diffs gauss_coeff n = (if even n then (- 1) ^ (n div 2) / fact (n div 2) else 0)"
  by (auto simp: diffs_def gauss_coeff_def)

lemma diffs_gauss_coeff_sums: "(\<lambda>n. diffs gauss_coeff n * z ^ n) sums exp (- z\<^sup>2)"
proof -
  have "(\<lambda>n. if even n then (- z\<^sup>2) ^ (n div 2) /\<^sub>R fact (n div 2) else (\<lambda>_. 0) ((n - 1) div 2))
          sums (0 + exp (- z\<^sup>2))"
    by (rule sums_if[OF sums_zero exp_converges])
  moreover have "(if even n then (- z\<^sup>2) ^ (n div 2) /\<^sub>R fact (n div 2) else 0)
      = diffs gauss_coeff n * z ^ n" for n
  proof (cases "even n")
    case True
    then obtain k where "n = 2 * k" by (auto elim: evenE)
    moreover have "(z\<^sup>2) ^ k = z ^ (2 * k)"
      by (simp add: power_mult)
    ultimately show ?thesis
      by (simp add: diffs_gauss_coeff power_minus[of "z\<^sup>2"] divide_inverse mult_ac del: power_mult)
  next
    case False
    then show ?thesis by (simp add: diffs_gauss_coeff)
  qed
  ultimately show ?thesis by simp
qed

lemma DERIV_gauss_sum: "DERIV (\<lambda>z. \<Sum>n. gauss_term z n) z :> exp (- z\<^sup>2)"
proof -
  have eq: "(\<Sum>n. gauss_term z n) = (\<Sum>n. gauss_coeff n * z ^ n)" for z
    using gauss_coeff_sums[of z] by (simp add: sums_unique)
  have "DERIV (\<lambda>z. \<Sum>n. gauss_coeff n * z ^ n) z :> (\<Sum>n. diffs gauss_coeff n * z ^ n)"
    by (rule termdiffs_strong_converges_everywhere) (rule sums_summable[OF gauss_coeff_sums])
  moreover have "(\<Sum>n. diffs gauss_coeff n * z ^ n) = exp (- z\<^sup>2)"
    using diffs_gauss_coeff_sums[of z] by (rule sums_unique[symmetric])
  ultimately show ?thesis
    by (simp add: eq)
qed

lemma cos_power_step:
  fixes a c s P :: real
  assumes "s * s = 1 - c * c"
  shows "(a * P * (- s)) * s + (P * c) * c + a * P = (a + 1) * (P * c * c)"
proof -
  have "(a * P * (- s)) * s + (P * c) * c + a * P = - a * P * (s * s) + P * c * c + a * P"
    by (simp add: algebra_simps)
  also have "\<dots> = - a * P * (1 - c * c) + P * c * c + a * P"
    by (simp only: assms)
  also have "\<dots> = (a + 1) * (P * c * c)"
    by (simp add: algebra_simps)
  finally show ?thesis .
qed

lemma DERIV_cos_integral: "DERIV (cos_integral k) x :> cos x ^ k"
proof (induction k x rule: cos_integral.induct)
  case (1 x)
  show ?case by (auto intro!: derivative_eq_intros simp: fun_eq_iff)
next
  case (2 x)
  show ?case by (auto intro!: derivative_eq_intros)
next
  case (3 k x)
  define a where "a = real (Suc k)"
  define P where "P = cos x ^ k"
  have s2: "sin x * sin x = 1 - cos x * cos x"
    using sin_cos_squared_add[of x] by (simp add: power2_eq_square algebra_simps)
  have a: "real (Suc (Suc k)) = a + 1" "a + 1 \<noteq> 0"
    by (simp_all add: a_def)
  have "DERIV (\<lambda>x. (cos x ^ Suc k * sin x + a * cos_integral k x) / (a + 1)) x
      :> ((a * cos x ^ k * (- sin x)) * sin x + cos x ^ Suc k * cos x + a * cos x ^ k) / (a + 1)"
    unfolding a_def
    by (auto intro!: derivative_eq_intros "3.IH" simp del: of_nat_Suc power_Suc)
  also have "((a * cos x ^ k * (- sin x)) * sin x + cos x ^ Suc k * cos x + a * cos x ^ k) / (a + 1)
      = ((a * P * (- sin x)) * sin x + (P * cos x) * cos x + a * P) / (a + 1)"
    by (simp add: P_def)
  also have "((a * P * (- sin x)) * sin x + (P * cos x) * cos x + a * P) / (a + 1) = P * cos x * cos x"
    unfolding cos_power_step[OF s2] using a(2) by simp
  also have "P * cos x * cos x = cos x ^ Suc (Suc k)"
    by (simp add: P_def)
  finally show ?case
    unfolding cos_integral.simps a[symmetric] a_def[symmetric] .
qed

lemma DERIV_cos_integral_chain:
  assumes "(g has_real_derivative D) (at x)"
  shows "((\<lambda>x. cos_integral k (g x)) has_real_derivative (cos (g x) ^ k * D)) (at x)"
  by (rule DERIV_chain2[OF DERIV_cos_integral assms])

lemma cos_integral_0: "cos_integral k 0 = 0"
  by (induction k "0::real" rule: cos_integral.induct) simp_all

lemma wallis_simps:
  "wallis 0 = pi / 2" "wallis (Suc 0) = 1"
  "wallis (Suc (Suc k)) = real (Suc k) * wallis k / real (Suc (Suc k))"
  by (simp_all add: wallis_def)

lemma wallis_product: "wallis (Suc k) * wallis k = pi / (2 * real (Suc k))"
proof (induction k)
  case 0
  show ?case by (simp add: wallis_simps)
next
  case (Suc k)
  have "wallis (Suc (Suc k)) * wallis (Suc k) = real (Suc k) / real (Suc (Suc k)) * (wallis (Suc k) * wallis k)"
    by (simp add: wallis_simps(3) del: of_nat_Suc)
  also have "\<dots> = real (Suc k) / real (Suc (Suc k)) * (pi / (2 * real (Suc k)))"
    by (simp only: Suc.IH)
  also have "\<dots> = pi / (2 * real (Suc (Suc k)))"
    by (simp del: of_nat_Suc)
  finally show ?case .
qed

lemma cos_integral_mono:
  assumes "0 \<le> a" "a \<le> b" "b \<le> pi / 2"
  shows "cos_integral k a \<le> cos_integral k b"
proof (rule DERIV_nonneg_imp_nondecreasing[OF assms(2)])
  fix x assume "a \<le> x" "x \<le> b"
  then have "0 \<le> cos x" using assms by (intro cos_ge_zero) auto
  then show "\<exists>y. DERIV (cos_integral k) x :> y \<and> 0 \<le> y"
    using DERIV_cos_integral[of k x] by (auto intro!: zero_le_power)
qed

lemma wallis_nonneg: "0 \<le> wallis k"
  using cos_integral_mono[of 0 "pi / 2" k] by (simp add: wallis_def cos_integral_0)

lemma wallis_decreasing: "wallis (Suc k) \<le> wallis k"
proof -
  have "cos_integral k 0 - cos_integral (Suc k) 0 \<le> cos_integral k (pi / 2) - cos_integral (Suc k) (pi / 2)"
  proof (rule DERIV_nonneg_imp_nondecreasing[where f = "\<lambda>x. cos_integral k x - cos_integral (Suc k) x"])
    show "(0::real) \<le> pi / 2" by simp
    fix x :: real assume x: "0 \<le> x" "x \<le> pi / 2"
    then have c: "0 \<le> cos x" by (intro cos_ge_zero) auto
    have "DERIV (\<lambda>x. cos_integral k x - cos_integral (Suc k) x) x :> cos x ^ k - cos x ^ Suc k"
      by (intro derivative_intros DERIV_cos_integral)
    moreover have "0 \<le> cos x ^ k - cos x ^ Suc k"
      using c cos_le_one[of x] by (simp add: mult_left_le_one_le)
    ultimately show "\<exists>y. DERIV (\<lambda>x. cos_integral k x - cos_integral (Suc k) x) x :> y \<and> 0 \<le> y"
      by blast
  qed
  then show ?thesis
    by (simp add: wallis_def cos_integral_0)
qed

lemma wallis_square_bound: "(wallis (Suc k))\<^sup>2 \<le> pi / (2 * real (Suc k))"
proof -
  have "(wallis (Suc k))\<^sup>2 = wallis (Suc k) * wallis (Suc k)"
    by (simp add: power2_eq_square)
  also have "\<dots> \<le> wallis (Suc k) * wallis k"
    by (intro mult_left_mono wallis_decreasing wallis_nonneg)
  finally show ?thesis
    by (simp only: wallis_product)
qed

lemma DERIV_gauss_sum': "DERIV gauss_sum z :> exp (- z\<^sup>2)"
  using DERIV_gauss_sum[of z] by (simp add: gauss_sum_def[abs_def])

lemma gauss_sum_0: "gauss_sum 0 = 0"
  by (simp add: gauss_sum_def gauss_term_def)

lemma gauss_sum_mono: "a \<le> b \<Longrightarrow> gauss_sum a \<le> gauss_sum b"
  by (rule DERIV_nonneg_imp_nondecreasing[where f = gauss_sum])
     (auto intro!: exI[of _ "exp (- x\<^sup>2)" for x] DERIV_gauss_sum')

lemma gauss_sum_nonneg: "0 \<le> x \<Longrightarrow> 0 \<le> gauss_sum x"
  using gauss_sum_mono[of 0 x] by (simp add: gauss_sum_0)

lemma exp_minus_square_le:
  fixes x :: real
  shows "exp (- x\<^sup>2) \<le> inverse ((1 + x\<^sup>2 / real (Suc n)) ^ Suc n)"
proof -
  have pos: "0 < 1 + x\<^sup>2 / real (Suc n)"
    by (intro add_pos_nonneg) simp_all
  have "(1 + x\<^sup>2 / real (Suc n)) ^ Suc n \<le> exp (x\<^sup>2 / real (Suc n)) ^ Suc n"
    using pos by (intro power_mono exp_ge_add_one_self) simp
  also have "\<dots> = exp (real (Suc n) * (x\<^sup>2 / real (Suc n)))"
    by (rule exp_of_nat_mult[symmetric])
  also have "\<dots> = exp (x\<^sup>2)"
    by simp
  finally have "inverse (exp (x\<^sup>2)) \<le> inverse ((1 + x\<^sup>2 / real (Suc n)) ^ Suc n)"
    using pos by (intro le_imp_inverse_le) simp_all
  then show ?thesis
    by (simp add: exp_minus)
qed

lemma cos_arctan_power: "cos (arctan u) ^ (2 * n) = inverse ((1 + u\<^sup>2) ^ n)"
proof -
  have "0 < 1 + u\<^sup>2" by (intro add_pos_nonneg) simp_all
  then have "(cos (arctan u))\<^sup>2 = inverse (1 + u\<^sup>2)"
    by (simp add: cos_arctan power_divide inverse_eq_divide)
  then show ?thesis
    by (simp add: power_mult power_inverse)
qed

lemma gauss_sum_le_cos_integral:
  assumes "0 \<le> x"
  shows "gauss_sum x \<le> sqrt (real (Suc n)) * cos_integral (2 * n) (arctan (x / sqrt (real (Suc n))))"
proof -
  define m where "m = real (Suc n)"
  have m: "0 < m" by (simp add: m_def)
  define f where "f = (\<lambda>x. sqrt m * cos_integral (2 * n) (arctan (x / sqrt m)) - gauss_sum x)"
  have "f 0 \<le> f x"
  proof (rule DERIV_nonneg_imp_nondecreasing[OF assms])
    fix y :: real
    define u where "u = y / sqrt m"
    have u2: "u\<^sup>2 = y\<^sup>2 / m"
      using m by (simp add: u_def power_divide)
    have d1: "DERIV (\<lambda>y. y / sqrt m) y :> 1 / sqrt m"
      by (rule DERIV_cdivide[OF DERIV_ident])
    have d2: "DERIV (\<lambda>y. arctan (y / sqrt m)) y :> inverse (1 + u\<^sup>2) * (1 / sqrt m)"
      unfolding u_def by (rule DERIV_chain2[OF DERIV_arctan d1])
    have d3: "DERIV (\<lambda>y. cos_integral (2 * n) (arctan (y / sqrt m))) y
        :> cos (arctan u) ^ (2 * n) * (inverse (1 + u\<^sup>2) * (1 / sqrt m))"
      unfolding u_def by (rule DERIV_cos_integral_chain[OF d2[unfolded u_def]])
    have "DERIV f y :> sqrt m * (cos (arctan u) ^ (2 * n) * (inverse (1 + u\<^sup>2) * (1 / sqrt m))) - exp (- y\<^sup>2)"
      unfolding f_def by (rule DERIV_diff[OF DERIV_cmult[OF d3] DERIV_gauss_sum'])
    moreover have "sqrt m * (cos (arctan u) ^ (2 * n) * (inverse (1 + u\<^sup>2) * (1 / sqrt m)))
        = inverse ((1 + y\<^sup>2 / m) ^ Suc n)"
    proof -
      have "sqrt m * (C * (I * (1 / sqrt m))) = C * I" for C I :: real
        using m by simp
      then have "sqrt m * (cos (arctan u) ^ (2 * n) * (inverse (1 + u\<^sup>2) * (1 / sqrt m)))
          = inverse ((1 + u\<^sup>2) ^ n) * inverse (1 + u\<^sup>2)"
        by (simp only: cos_arctan_power)
      also have "\<dots> = inverse ((1 + u\<^sup>2) ^ Suc n)"
        by (simp add: inverse_mult_distrib mult.commute)
      finally show ?thesis
        by (simp only: u2)
    qed
    moreover have "exp (- y\<^sup>2) \<le> inverse ((1 + y\<^sup>2 / m) ^ Suc n)"
      unfolding m_def by (rule exp_minus_square_le)
    ultimately show "\<exists>d. DERIV f y :> d \<and> 0 \<le> d"
      by (intro exI[of _ "inverse ((1 + y\<^sup>2 / m) ^ Suc n) - exp (- y\<^sup>2)"]) simp
  qed
  then show ?thesis
    by (simp add: f_def cos_integral_0 gauss_sum_0 m_def)
qed

lemma gauss_sum_square_bound:
  assumes "0 \<le> x"
  shows "(gauss_sum x)\<^sup>2 \<le> pi / 4 + pi / (4 * real (Suc n))"
proof -
  define m where "m = real (Suc (Suc n))"
  have "0 \<le> arctan (x / sqrt m)"
    using assms by (simp add: m_def)
  then have w: "cos_integral (2 * Suc n) (arctan (x / sqrt m)) \<le> wallis (2 * Suc n)"
    unfolding wallis_def by (rule cos_integral_mono[OF _ less_imp_le[OF arctan_ubound] order_refl])
  have "sqrt m * cos_integral (2 * Suc n) (arctan (x / sqrt m)) \<le> sqrt m * wallis (2 * Suc n)"
    by (rule mult_left_mono[OF w]) (simp add: m_def)
  moreover have "gauss_sum x \<le> sqrt m * cos_integral (2 * Suc n) (arctan (x / sqrt m))"
    unfolding m_def by (rule gauss_sum_le_cos_integral[OF assms])
  ultimately have "gauss_sum x \<le> sqrt m * wallis (2 * Suc n)"
    by (rule order_trans[rotated])
  then have "(gauss_sum x)\<^sup>2 \<le> (sqrt m * wallis (2 * Suc n))\<^sup>2"
    using gauss_sum_nonneg[OF assms] by (intro power_mono)
  also have "\<dots> = m * (wallis (Suc (2 * n + 1)))\<^sup>2"
    by (simp add: power_mult_distrib m_def)
  also have "\<dots> \<le> m * (pi / (2 * real (Suc (2 * n + 1))))"
    by (intro mult_left_mono wallis_square_bound) (simp add: m_def)
  also have "\<dots> = pi / 4 + pi / (4 * real (Suc n))"
    by (simp add: m_def field_simps)
  finally show ?thesis .
qed

lemma gauss_sum_le:
  assumes "0 \<le> x"
  shows "gauss_sum x \<le> sqrt pi / 2"
proof -
  have "(gauss_sum x)\<^sup>2 \<le> pi / 4"
  proof (rule ccontr)
    assume "\<not> (gauss_sum x)\<^sup>2 \<le> pi / 4"
    then have eps: "0 < (gauss_sum x)\<^sup>2 - pi / 4" by simp
    obtain n :: nat where n: "pi / (4 * ((gauss_sum x)\<^sup>2 - pi / 4)) < real n"
      using reals_Archimedean2 by blast
    have "pi / (4 * real (Suc n)) < (gauss_sum x)\<^sup>2 - pi / 4"
    proof -
      have "pi / (4 * ((gauss_sum x)\<^sup>2 - pi / 4)) < real (Suc n)"
        using n by simp
      then have "pi < real (Suc n) * (4 * ((gauss_sum x)\<^sup>2 - pi / 4))"
        using eps by (simp add: pos_divide_less_eq)
      then show ?thesis
        by (simp add: pos_divide_less_eq mult_ac del: of_nat_Suc)
    qed
    with gauss_sum_square_bound[OF assms, of n] show False
      by simp
  qed
  then have "gauss_sum x \<le> sqrt (pi / 4)"
    by (rule real_le_rsqrt)
  then show ?thesis
    by (simp add: real_sqrt_divide)
qed

lemma erf_real_eq: "erf_real z = 2 / sqrt pi * gauss_sum z"
  by (simp add: erf_real_def gauss_sum_def gauss_term_def)

lemma erfc_real_mono:
  assumes "u \<le> v"
  shows "erfc_real v \<le> erfc_real u"
proof -
  have "2 / sqrt pi * gauss_sum u \<le> 2 / sqrt pi * gauss_sum v"
    by (intro mult_left_mono gauss_sum_mono[OF assms]) simp
  then show ?thesis
    unfolding erfc_real_def erf_real_eq by linarith
qed

lemma erfc_real_range:
  assumes "0 \<le> z"
  shows "0 \<le> erfc_real z" "erfc_real z \<le> 1"
proof -
  have "2 / sqrt pi * gauss_sum z \<le> 2 / sqrt pi * (sqrt pi / 2)"
    by (intro mult_left_mono gauss_sum_le[OF assms]) simp
  then show "0 \<le> erfc_real z"
    by (simp add: erfc_real_def erf_real_eq)
  show "erfc_real z \<le> 1"
    using gauss_sum_nonneg[OF assms] by (simp add: erfc_real_def erf_real_eq)
qed

lemma erfc_real_0: "erfc_real 0 = 1"
  by (simp add: erfc_real_def erf_real_def)

subsection \<open>The analytic reference\<close>

lemma analytic_1d:
  assumes "n = length xs" and "m = length ts"
  shows "analytic erfc \<lparr>shape = [n], data = xs\<rparr> \<lparr>shape = [m], data = ts\<rparr> D x0 xend logx c_s =
     Inr \<lparr>shape = [m, n],
          data = concat (map (\<lambda>ti. map (\<lambda>xj. c_s * erfc ((if logx then exp xj else xj) / (2 * sqrt (D * ti)))) xs) ts)\<rparr>"
  using assms
  by (simp add: analytic_def Let_def ndim_def size_nd_def nd_map_def
      broadcast2_row_col map_concat o_def)

lemma analytic_array1:
  "analytic erfc (array1 xs) (array1 ts) D x0 xend logx c_s =
     Inr \<lparr>shape = [length ts, length xs],
          data = concat (map (\<lambda>ti. map (\<lambda>xj. c_s * erfc ((if logx then exp xj else xj) / (2 * sqrt (D * ti)))) xs) ts)\<rparr>"
  by (simp add: array1_def analytic_1d)

lemma analytic_well_formed:
  "analytic erfc x t D x0 xend logx c_s = Inr c \<Longrightarrow> well_formed c"
  by (auto simp: analytic_def Let_def nd_map_def well_formed_def size_nd_def
      dest!: broadcast2_well_formed split: sum.splits)

text \<open>
  C1. On a coordinate sequence \<open>xs\<close> and a time sequence \<open>ts\<close>, \<open>analytic\<close> returns the
  matrix of shape \<open>[length ts, length xs]\<close>, indexed by time and then by coordinate,
  whose entry for the time \<open>ts ! i\<close> and the coordinate \<open>xs ! j\<close> is
  \<open>c_s * erfc (x' / (2 * sqrt (D * ts ! i)))\<close>, with \<open>x' = exp (xs ! j)\<close> under \<open>logx\<close> and
  \<open>x' = xs ! j\<close> otherwise.
\<close>

theorem analytic_sequences:
  "\<exists>r. analytic erfc (array1 xs) (array1 ts) D x0 xend logx c_s = Inr r
     \<and> shape r = [length ts, length xs]
     \<and> well_formed r
     \<and> (\<forall>i<length ts. \<forall>j<length xs.
           item r [i, j] = c_s * erfc ((if logx then exp (xs ! j) else xs ! j) / (2 * sqrt (D * ts ! i))))"
proof -
  let ?f = "\<lambda>ti xj. c_s * erfc ((if logx then exp xj else xj) / (2 * sqrt (D * ti)))"
  let ?r = "\<lparr>shape = [length ts, length xs], data = concat (map (\<lambda>ti. map (?f ti) xs) ts)\<rparr>"
  have r: "analytic erfc (array1 xs) (array1 ts) D x0 xend logx c_s = Inr ?r"
    by (rule analytic_array1)
  have "well_formed ?r"
    using analytic_well_formed[OF r] .
  moreover have "\<forall>i<length ts. \<forall>j<length xs. item ?r [i, j] = ?f (ts ! i) (xs ! j)"
    unfolding item_matrix by (simp add: table_entry)
  ultimately show ?thesis
    using r by (intro exI[of _ ?r]) simp
qed

theorem analytic_sequences_witness:
  "analytic erfc_real (array1 [0, 3]) (array1 [1, 4]) 1 0 4 False 2
     = Inr \<lparr>shape = [2, 2], data = [2, 2 * erfc_real (3 / 2), 2, 2 * erfc_real (3 / 4)]\<rparr>
   \<and> item \<lparr>shape = [2, 2], data = [2, 2 * erfc_real (3 / 2), 2, 2 * erfc_real (3 / 4)]\<rparr> [1, 1]
       = 2 * erfc_real (3 / (2 * sqrt (1 * 4)))"
proof -
  have r: "analytic erfc_real (array1 [0, 3]) (array1 [1, 4]) 1 0 4 False 2
     = Inr \<lparr>shape = [2, 2], data = [2, 2 * erfc_real (3 / 2), 2, 2 * erfc_real (3 / 4)]\<rparr>"
    by (simp add: analytic_array1 erfc_real_0)
  from analytic_sequences[of erfc_real "[0, 3]" "[1, 4]" 1 0 4 False 2]
  have "\<forall>i<length [1, 4::real]. \<forall>j<length [0, 3::real].
      item \<lparr>shape = [2, 2], data = [2, 2 * erfc_real (3 / 2), 2, 2 * erfc_real (3 / 4)]\<rparr> [i, j]
        = 2 * erfc_real ((if False then exp ([0, 3] ! j) else [0, 3] ! j) / (2 * sqrt (1 * [1, 4] ! i)))"
    unfolding r by simp
  then have "item \<lparr>shape = [2, 2], data = [2, 2 * erfc_real (3 / 2), 2, 2 * erfc_real (3 / 4)]\<rparr> [1, 1]
        = 2 * erfc_real ((if False then exp ([0, 3] ! 1) else [0, 3] ! 1) / (2 * sqrt (1 * [1, 4::real] ! 1)))"
    by force
  with r show ?thesis by simp
qed

text \<open>
  C6, as stated, fails for a negative surface concentration: at \<open>x = 0\<close> the value is
  \<open>c_s\<close> itself, here -1, which is below 0.
\<close>

theorem negative_surface_concentration:
  "analytic erfc_real (array1 [0]) (array1 [1]) 1 0 1 False (- 1) = Inr \<lparr>shape = [1, 1], data = [- 1]\<rparr>
   \<and> \<not> (0 \<le> (- 1 :: real))"
  by (simp add: analytic_array1 erfc_real_0)

lemma range_and_monotone_for_any_erfc:
  assumes range: "\<forall>z\<ge>0. 0 \<le> erfc z \<and> erfc z \<le> 1"
    and mono: "\<forall>u v. 0 \<le> u \<and> u \<le> v \<longrightarrow> erfc v \<le> erfc u"
    and D: "0 < D" and ts: "\<forall>t\<in>set ts. 0 < t" and c_s: "0 \<le> c_s" and xs: "\<forall>x\<in>set xs. 0 \<le> x"
  shows "\<exists>r. analytic erfc (array1 xs) (array1 ts) D x0 xend logx c_s = Inr r
     \<and> (\<forall>v\<in>set (data r). 0 \<le> v \<and> v \<le> c_s)
     \<and> (\<forall>i<length ts. \<forall>j<length xs. \<forall>k<length xs.
           xs ! j \<le> xs ! k \<longrightarrow> item r [i, k] \<le> item r [i, j])"
proof -
  define z where "z = (\<lambda>ti xj. (if logx then exp xj else xj) / (2 * sqrt (D * ti)))"
  define r where "r = \<lparr>shape = [length ts, length xs],
      data = concat (map (\<lambda>ti. map (\<lambda>xj. c_s * erfc (z ti xj)) xs) ts)\<rparr>"
  have r: "analytic erfc (array1 xs) (array1 ts) D x0 xend logx c_s = Inr r"
    by (simp add: analytic_array1 r_def z_def)
  have z_nonneg: "0 \<le> z t x" if "t \<in> set ts" "x \<in> set xs" for t x
    using that D ts xs by (auto simp: z_def intro!: divide_nonneg_nonneg)
  have z_mono: "z t x \<le> z t y" if "t \<in> set ts" "x \<le> y" for t x y
  proof -
    have "0 < 2 * sqrt (D * t)" using that D ts by simp
    moreover have "(if logx then exp x else x) \<le> (if logx then exp y else y)"
      using that by simp
    ultimately show ?thesis
      unfolding z_def by (rule divide_right_mono[OF _ less_imp_le, rotated])
  qed
  have bounds: "\<forall>v\<in>set (data r). 0 \<le> v \<and> v \<le> c_s"
  proof
    fix v assume "v \<in> set (data r)"
    then obtain t x where tx: "t \<in> set ts" "x \<in> set xs" and v: "v = c_s * erfc (z t x)"
      by (auto simp: r_def)
    from range z_nonneg[OF tx] have "0 \<le> erfc (z t x)" "erfc (z t x) \<le> 1" by auto
    with c_s show "0 \<le> v \<and> v \<le> c_s"
      unfolding v by (simp add: mult_left_le)
  qed
  have falls: "\<forall>i<length ts. \<forall>j<length xs. \<forall>k<length xs.
           xs ! j \<le> xs ! k \<longrightarrow> item r [i, k] \<le> item r [i, j]"
  proof (intro allI impI)
    fix i j k assume i: "i < length ts" and j: "j < length xs" and k: "k < length xs"
      and le: "xs ! j \<le> xs ! k"
    have t: "ts ! i \<in> set ts" using i by simp
    have "0 \<le> z (ts ! i) (xs ! j)" using z_nonneg[OF t] j by simp
    moreover have "z (ts ! i) (xs ! j) \<le> z (ts ! i) (xs ! k)" by (rule z_mono[OF t le])
    ultimately have "erfc (z (ts ! i) (xs ! k)) \<le> erfc (z (ts ! i) (xs ! j))"
      using mono by blast
    then have "c_s * erfc (z (ts ! i) (xs ! k)) \<le> c_s * erfc (z (ts ! i) (xs ! j))"
      using c_s by (rule mult_left_mono)
    then show "item r [i, k] \<le> item r [i, j]"
      unfolding r_def item_matrix using i j k by (simp add: table_entry)
  qed
  from r bounds falls show ?thesis by blast
qed

text \<open>
  C6, amended. For \<open>D > 0\<close>, positive times, a surface concentration \<open>c_s \<ge> 0\<close> and
  coordinates \<open>x \<ge> 0\<close>, every entry of the result of \<open>analytic\<close>, evaluated with the
  complementary error function, lies between 0 and \<open>c_s\<close>, and within one time row an
  entry at a larger coordinate is not larger.
\<close>

theorem analytic_range_and_monotone:
  assumes "0 < D" and "\<forall>t\<in>set ts. 0 < t" and "0 \<le> c_s" and "\<forall>x\<in>set xs. 0 \<le> x"
  shows "\<exists>r. analytic erfc_real (array1 xs) (array1 ts) D x0 xend logx c_s = Inr r
     \<and> (\<forall>v\<in>set (data r). 0 \<le> v \<and> v \<le> c_s)
     \<and> (\<forall>i<length ts. \<forall>j<length xs. \<forall>k<length xs.
           xs ! j \<le> xs ! k \<longrightarrow> item r [i, k] \<le> item r [i, j])"
proof (rule range_and_monotone_for_any_erfc[OF _ _ assms])
  show "\<forall>z\<ge>0. 0 \<le> erfc_real z \<and> erfc_real z \<le> 1"
    by (simp add: erfc_real_range)
  show "\<forall>u v. 0 \<le> u \<and> u \<le> v \<longrightarrow> erfc_real v \<le> erfc_real u"
    by (simp add: erfc_real_mono)
qed

theorem analytic_range_and_monotone_witness:
  "analytic erfc_real (array1 [0, 2]) (array1 [1]) 1 0 4 False 3
     = Inr \<lparr>shape = [1, 2], data = [3, 3 * erfc_real 1]\<rparr>
   \<and> 0 \<le> 3 * erfc_real 1 \<and> 3 * erfc_real 1 \<le> 3
   \<and> item \<lparr>shape = [1, 2], data = [3, 3 * erfc_real 1]\<rparr> [0, 1]
       \<le> item \<lparr>shape = [1, 2], data = [3, 3 * erfc_real 1]\<rparr> [0, 0]"
proof -
  have r: "analytic erfc_real (array1 [0, 2]) (array1 [1]) 1 0 4 False 3
      = Inr \<lparr>shape = [1, 2], data = [3, 3 * erfc_real 1]\<rparr>"
    by (simp add: analytic_array1 erfc_real_0)
  from analytic_range_and_monotone[of 1 "[1]" 3 "[0, 2]" 0 4 False]
  have "(\<forall>v\<in>set [3, 3 * erfc_real 1]. 0 \<le> v \<and> v \<le> 3)
     \<and> (\<forall>i<length [1::real]. \<forall>j<length [0, 2::real]. \<forall>k<length [0, 2::real].
           [0, 2::real] ! j \<le> [0, 2] ! k \<longrightarrow>
             item \<lparr>shape = [1, 2], data = [3, 3 * erfc_real 1]\<rparr> [i, k]
               \<le> item \<lparr>shape = [1, 2], data = [3, 3 * erfc_real 1]\<rparr> [i, j])"
    unfolding r by simp
  then have "0 \<le> 3 * erfc_real 1 \<and> 3 * erfc_real 1 \<le> 3"
    and "item \<lparr>shape = [1, 2], data = [3, 3 * erfc_real 1]\<rparr> [0, 1]
       \<le> item \<lparr>shape = [1, 2], data = [3, 3 * erfc_real 1]\<rparr> [0, 0]"
    by (simp, fastforce)
  with r show ?thesis by simp
qed

subsection \<open>The integration of one system\<close>

lemmas eval_defs = integrate_rd_setup_def defaults_def small_case_def well_formed_def ndim_def grid_of_def stand_in_def seed_random_def seed_state_def and_then_def
     linspace_def units_def equidistant_grid_def make_rd_args_def midpoints_def array1_def analytic_1d
     reshape_def size_nd_def first_entry_def zeros_like_def set_first_row_def concatenate_axis1_def
     integrate_rd_def constant_solution_def take_species_def rms_rows_def rmsd_over_atol_def
     average_def nd_map_def modulation_def
     upt_rec[of _ "numeral _"] upt_rec[of _ "Suc _"]

lemma integrate_rd_setup_InrD:
  assumes "integrate_rd_setup ext p g = Inr (s, g')"
  shows "\<exists>g1 tout u x c Cref Cref0 source y0.
     p_t0 p \<noteq> 0 \<and>
     seed_random ext (p_random_seed p) g = Inr g1 \<and>
     linspace (p_t0 p) (p_tend p) (p_nt p) = Inr tout \<and>
     units (p_scaling p) = Inr u \<and>
     generate_grid ext (p_x0 p) (p_xend p) (p_N p) (p_logx p) (p_random p) g1 = Inr (x, g') \<and>
     ReactionDiffusion ext (make_rd_args p x u) = Inr (s_rd s) \<and>
     analytic (scipy_special_erfc ext) (xcenters ext (s_rd s)) tout (p_D p) (p_x0 p) (p_xend p) (p_logx p) 1 = Inr c \<and>
     reshape c [p_nt p, p_N p, 1] = Inr Cref \<and>
     first_entry Cref = Inr Cref0 \<and>
     set_first_row (zeros_like Cref0) (p_factor p) = Inr source \<and>
     concatenate_axis1 source Cref0 = Inr y0 \<and>
     s = \<lparr>s_tout = tout, s_x = x, s_args = make_rd_args p x u, s_rd = s_rd s, s_Cref = Cref, s_y0 = y0\<rparr>"
  using assms unfolding integrate_rd_setup_def and_then_def
  by (auto split: if_splits sum.splits prod.splits)

lemma integrate_rd_InrD:
  assumes "integrate_rd ext p g = Inr ((tout, C, nfo, rd, tot), g')"
  shows "\<exists>s integr spat.
     integrate_rd_setup ext p g = Inr (s, g') \<and> tout = s_tout s \<and> rd = s_rd s \<and>
     run ext (s_rd s) (s_y0 s) (s_tout s) (p_atol p) (p_rtol p) (\<not> p_num_jacobian p) (p_method p) = Inr integr \<and>
     C = Cout ext integr \<and> nfo = info ext integr \<and>
     rmsd_over_atol ext (p_atol p) C (s_Cref s) = Inr (spat, tot) \<and>
     (p_plot p \<longrightarrow> plot_results ext p (s_rd s) integr (s_Cref s) spat tot = Inr ())"
  using assms unfolding integrate_rd_def and_then_def
  by (auto split: if_splits sum.splits prod.splits)

text \<open>
  C2, as stated, fails: with \<open>t0 = -1\<close>, \<open>tend = 1\<close> and three output times, the times are
  -1, 0 and 1, and lines 89-128 of \<open>integrate_rd\<close> run through without an error, the
  reference field having been evaluated at all three times.
\<close>

theorem nonpositive_times_accepted:
  "(case integrate_rd_setup (stand_in erfc_real) (small_case\<lparr>p_t0 := - 1, p_tend := 1, p_nt := 3\<rparr>) 0 of
      Inl e \<Rightarrow> False
    | Inr (s, g) \<Rightarrow> s_tout s = array1 [- 1, 0, 1] \<and> shape (s_Cref s) = [3, 2, 1])"
  by (simp add: eval_defs)

text \<open>
  C2, amended. \<open>integrate_rd\<close> raises its \<open>ValueError\<close> when \<open>t0\<close> is zero, whatever the
  collaborators and the other arguments; \<open>analytic\<close> checks nothing and returns an array for
  every time sequence, non-positive times included.
\<close>

theorem zero_initial_time_rejected:
  "(p_t0 p = 0 \<longrightarrow>
      integrate_rd ext p g = Inl (ValueError ''t0==0 => Dirac delta function C0 profile.''))
   \<and> (\<exists>r. analytic erfc (array1 xs) (array1 ts) D x0 xend logx c_s = Inr r)"
  by (simp add: integrate_rd_def integrate_rd_setup_def and_then_def analytic_array1)

theorem zero_initial_time_rejected_witness:
  "p_t0 (small_case\<lparr>p_t0 := 0\<rparr>) = 0
   \<and> integrate_rd (stand_in erfc_real) (small_case\<lparr>p_t0 := 0\<rparr>) (0::nat)
       = Inl (ValueError ''t0==0 => Dirac delta function C0 profile.'')
   \<and> (\<exists>r. analytic erfc_real (array1 [1, 3]) (array1 [- 1, 0]) 1 0 4 False 1 = Inr r)"
  using zero_initial_time_rejected[of "small_case\<lparr>p_t0 := 0\<rparr>" "stand_in erfc_real" "0::nat"
      erfc_real "[1, 3]" "[- 1, 0]" 1 0 4 False 1]
  by simp

lemma modulation_first_cell:
  "1 \<le> N' \<Longrightarrow> modulation N' = 1 # replicate (nat N' - 1) 0"
proof -
  assume "1 \<le> N'"
  then obtain k where k: "nat N' = Suc k" by (cases "nat N'") auto
  have "map (\<lambda>i. if i = 0 then 1 else (0::int)) [0..<Suc k] = 1 # replicate k 0"
    by (rule nth_equalityI) (auto simp: nth_Cons' simp del: upt_Suc)
  then show ?thesis by (simp add: modulation_def k del: upt_Suc)
qed

lemma y0_profile:
  assumes xs: "length xs = n" and n: "0 < n"
    and src: "set_first_row (zeros_like \<lparr>shape = [n, 1], data = xs\<rparr>) v = Inr source"
    and y0: "concatenate_axis1 source \<lparr>shape = [n, 1], data = xs\<rparr> = Inr y0"
  shows "y0 = \<lparr>shape = [n, 2], data = concat (map (\<lambda>j. [if j = 0 then v else 0, xs ! j]) [0..<n])\<rparr>"
proof -
  obtain k where k: "n = Suc k" using n by (cases n) auto
  have source: "source = \<lparr>shape = [n, 1], data = v # replicate k 0\<rparr>"
    using src by (simp add: set_first_row_def zeros_like_def size_nd_def k)
  have cells: "map (\<lambda>i. take (Suc 0) (drop i (v # replicate k 0)) @ take (Suc 0) (drop i xs)) [0..<n]
      = map (\<lambda>j. [if j = 0 then v else 0, xs ! j]) [0..<n]"
  proof (rule map_cong[OF refl])
    fix i assume "i \<in> set [0..<n]"
    then have i: "i < n" by simp
    have "take (Suc 0) (drop i (v # replicate k 0)) = [(v # replicate k 0) ! i]"
      using i by (intro take_1_drop) (simp add: k)
    moreover have "(v # replicate k 0) ! i = (if i = 0 then v else 0)"
      using i by (simp add: nth_Cons' k)
    moreover have "take (Suc 0) (drop i xs) = [xs ! i]"
      using i by (intro take_1_drop) (simp add: xs)
    ultimately show "take (Suc 0) (drop i (v # replicate k 0)) @ take (Suc 0) (drop i xs)
        = [if i = 0 then v else 0, xs ! i]"
      by simp
  qed
  show ?thesis
    using y0 by (auto simp add: concatenate_axis1_def source cells numeral_2_eq_2 simp del: upt_Suc)
qed

text \<open>
  C9. Whenever \<open>integrate_rd\<close> with \<open>N \<ge> 1\<close> gets as far as the solver, on a grid whose
  cell centres are a one-dimensional array: the modulation vector is 1 in cell 0 and 0 in
  every other cell; the \<open>ReactionDiffusion\<close> object is the one constructed with the
  reactions 0 and 1 modulated, each by that vector; \<open>y0\<close> has shape \<open>[N, 2]\<close>, its first
  column being \<open>factor\<close> in cell 0 and 0 elsewhere and its second column the analytic
  profile at \<open>t0\<close>; and it is this object and this \<open>y0\<close> that the solver is run on.
\<close>

theorem boundary_source_first_cell:
  assumes prep: "integrate_rd_setup ext p g = Inr (s, g')"
    and N: "1 \<le> p_N p"
    and xc: "ndim (xcenters ext (s_rd s)) = 1" "well_formed (xcenters ext (s_rd s))"
  shows "modulation (p_N p) = 1 # replicate (nat (p_N p) - 1) 0
     \<and> ReactionDiffusion ext (s_args s) = Inr (s_rd s)
     \<and> rd_modulated_rxns (s_args s) = [0, 1]
     \<and> rd_modulation (s_args s) = [modulation (p_N p), modulation (p_N p)]
     \<and> s_y0 s = \<lparr>shape = [nat (p_N p), 2],
          data = concat (map (\<lambda>j. [if j = 0 then p_factor p else 0,
                   1 * scipy_special_erfc ext
                     ((if p_logx p then exp (data (xcenters ext (s_rd s)) ! j)
                       else data (xcenters ext (s_rd s)) ! j) / (2 * sqrt (p_D p * p_t0 p)))])
                 [0..<nat (p_N p)])\<rparr>
     \<and> (\<forall>e. run ext (s_rd s) (s_y0 s) (s_tout s) (p_atol p) (p_rtol p) (\<not> p_num_jacobian p) (p_method p) = Inl e
            \<longrightarrow> integrate_rd ext p g = Inl e)
     \<and> (\<forall>tout' C nfo rd' tot g''. integrate_rd ext p g = Inr ((tout', C, nfo, rd', tot), g'')
            \<longrightarrow> (\<exists>integr. run ext (s_rd s) (s_y0 s) (s_tout s) (p_atol p) (p_rtol p)
                    (\<not> p_num_jacobian p) (p_method p) = Inr integr \<and> C = Cout ext integr))"
proof -
  from integrate_rd_setup_InrD[OF prep] obtain g1 tout u x c Cref Cref0 source y0 where
    tout: "linspace (p_t0 p) (p_tend p) (p_nt p) = Inr tout"
    and rd: "ReactionDiffusion ext (make_rd_args p x u) = Inr (s_rd s)"
    and c: "analytic (scipy_special_erfc ext) (xcenters ext (s_rd s)) tout (p_D p) (p_x0 p) (p_xend p) (p_logx p) 1 = Inr c"
    and Cref: "reshape c [p_nt p, p_N p, 1] = Inr Cref"
    and Cref0: "first_entry Cref = Inr Cref0"
    and source: "set_first_row (zeros_like Cref0) (p_factor p) = Inr source"
    and y0: "concatenate_axis1 source Cref0 = Inr y0"
    and s: "s = \<lparr>s_tout = tout, s_x = x, s_args = make_rd_args p x u, s_rd = s_rd s, s_Cref = Cref, s_y0 = y0\<rparr>"
    by blast
  define xs where "xs = data (xcenters ext (s_rd s))"
  define ts where "ts = data tout"
  define f where "f = (\<lambda>ti xj. 1 * scipy_special_erfc ext ((if p_logx p then exp xj else xj) / (2 * sqrt (p_D p * ti))))"
  from linspace_InrD[OF tout] have nt: "0 \<le> p_nt p" and tsh: "shape tout = [nat (p_nt p)]"
    and tlen: "length ts = nat (p_nt p)" and t0: "0 < p_nt p \<longrightarrow> ts ! 0 = p_t0 p"
    by (simp_all add: ts_def)
  have xcs: "xcenters ext (s_rd s) = \<lparr>shape = [length xs], data = xs\<rparr>"
    using xc by (cases "xcenters ext (s_rd s)") (auto simp: ndim_def well_formed_def size_nd_def xs_def length_Suc_conv)
  have touts: "tout = \<lparr>shape = [length ts], data = ts\<rparr>"
    using tsh tlen by (cases tout) (simp add: ts_def)
  have c_eq: "c = \<lparr>shape = [length ts, length xs], data = concat (map (\<lambda>ti. map (f ti) xs) ts)\<rparr>"
    using c unfolding xcs touts f_def by (subst (asm) analytic_1d) simp_all
  from reshape_3_InrD[OF Cref nt N] have Cref_eq: "Cref = \<lparr>shape = [nat (p_nt p), nat (p_N p), 1], data = data c\<rparr>"
    and sz: "size_nd c = nat (p_nt p) * nat (p_N p)" by simp_all
  have ntpos: "0 < nat (p_nt p)"
    using Cref0 by (auto simp: first_entry_def Cref_eq split: if_splits)
  have len: "length xs = nat (p_N p)"
    using sz ntpos by (simp add: c_eq size_nd_def tlen)
  obtain t ts' where ts: "ts = t # ts'" using ntpos tlen by (cases ts) auto
  have t: "t = p_t0 p" using t0 ntpos ts by simp
  have Cref0_eq: "Cref0 = \<lparr>shape = [nat (p_N p), 1], data = map (f (p_t0 p)) xs\<rparr>"
    using Cref0 ntpos by (auto simp: first_entry_def Cref_eq c_eq ts t len)
  have "y0 = \<lparr>shape = [nat (p_N p), 2],
        data = concat (map (\<lambda>j. [if j = 0 then p_factor p else 0, map (f (p_t0 p)) xs ! j]) [0..<nat (p_N p)])\<rparr>"
    using N source y0 unfolding Cref0_eq by (intro y0_profile[where v = "p_factor p"]) (simp_all add: len)
  also have "map (\<lambda>j. [if j = 0 then p_factor p else 0, map (f (p_t0 p)) xs ! j]) [0..<nat (p_N p)]
      = map (\<lambda>j. [if j = 0 then p_factor p else 0, f (p_t0 p) (xs ! j)]) [0..<nat (p_N p)]"
    by (rule map_cong[OF refl]) (simp add: len)
  finally have "s_y0 s = \<lparr>shape = [nat (p_N p), 2],
        data = concat (map (\<lambda>j. [if j = 0 then p_factor p else 0, f (p_t0 p) (xs ! j)]) [0..<nat (p_N p)])\<rparr>"
    using s by (metis rd_setup.select_convs(6))
  moreover have "rd_modulated_rxns (s_args s) = [0, 1]"
      "rd_modulation (s_args s) = [modulation (p_N p), modulation (p_N p)]"
    by (subst s, simp add: make_rd_args_def)+
  moreover have "ReactionDiffusion ext (s_args s) = Inr (s_rd s)"
    using rd by (subst s) simp
  moreover have "integrate_rd ext p g = Inl e"
    if "run ext (s_rd s) (s_y0 s) (s_tout s) (p_atol p) (p_rtol p) (\<not> p_num_jacobian p) (p_method p) = Inl e"
    for e
    using that prep by (simp add: integrate_rd_def and_then_def)
  moreover have "\<exists>integr. run ext (s_rd s) (s_y0 s) (s_tout s) (p_atol p) (p_rtol p)
          (\<not> p_num_jacobian p) (p_method p) = Inr integr \<and> C = Cout ext integr"
    if "integrate_rd ext p g = Inr ((tout', C, nfo, rd', tot), g'')" for tout' C nfo rd' tot g''
    using integrate_rd_InrD[OF that] prep by auto
  ultimately show ?thesis
    using modulation_first_cell[OF N] by (simp add: f_def xs_def)
qed

theorem boundary_source_first_cell_witness:
  "\<exists>s g'. integrate_rd_setup (stand_in erfc_real) three_cells 0 = Inr (s, g')
      \<and> modulation (p_N three_cells) = [1, 0, 0]
      \<and> equidistant_grid 0 6 3 False False 42 = Inr (rd_x (s_args s), g')
      \<and> ReactionDiffusion (stand_in erfc_real) (s_args s) = Inr (s_rd s)
      \<and> rd_modulated_rxns (s_args s) = [0, 1]
      \<and> rd_modulation (s_args s) = [[1, 0, 0], [1, 0, 0]]
      \<and> s_y0 s = \<lparr>shape = [3, 2],
            data = [100000, erfc_real (1 / 2), 0, erfc_real (3 / 2), 0, erfc_real (5 / 2)]\<rparr>
      \<and> (\<exists>C nfo tot. integrate_rd (stand_in erfc_real) three_cells 0 = Inr ((s_tout s, C, nfo, s_rd s, tot), g')
            \<and> constant_solution (s_rd s) (s_y0 s) (s_tout s) (1 / 10 ^ 6) (1 / 10 ^ 6) True ''bdf'' = Inr C)"
proof -
  let ?ext = "stand_in erfc_real"
  have "\<exists>s g'. integrate_rd_setup ?ext three_cells 0 = Inr (s, g')
      \<and> ndim (xcenters ?ext (s_rd s)) = 1
      \<and> well_formed (xcenters ?ext (s_rd s))
      \<and> data (xcenters ?ext (s_rd s)) = [1, 3, 5]
      \<and> equidistant_grid 0 6 3 False False 42 = Inr (rd_x (s_args s), g')
      \<and> (\<exists>C nfo tot. integrate_rd ?ext three_cells 0 = Inr ((s_tout s, C, nfo, s_rd s, tot), g'))"
    by (simp add: integrate_rd_def) (simp add: eval_defs three_cells_def)
  then obtain s g' C nfo tot where prep: "integrate_rd_setup ?ext three_cells 0 = Inr (s, g')"
    and xc: "ndim (xcenters ?ext (s_rd s)) = 1" "well_formed (xcenters ?ext (s_rd s))"
    and xs: "data (xcenters ?ext (s_rd s)) = [1, 3, 5]"
    and grid: "equidistant_grid 0 6 3 False False 42 = Inr (rd_x (s_args s), g')"
    and run: "integrate_rd ?ext three_cells 0 = Inr ((s_tout s, C, nfo, s_rd s, tot), g')"
    by blast
  have N: "1 \<le> p_N three_cells" by (simp add: three_cells_def small_case_def)
  have more: "p_N three_cells = 3" "p_factor three_cells = 100000" "p_D three_cells = 1"
    "p_t0 three_cells = 1" "\<not> p_logx three_cells" "p_atol three_cells = 1 / 10 ^ 6"
    "p_rtol three_cells = 1 / 10 ^ 6" "\<not> p_num_jacobian three_cells" "p_method three_cells = ''bdf''"
    "scipy_special_erfc ?ext = erfc_real"
    "run ?ext = constant_solution" "Cout ?ext = (\<lambda>c. c)"
    by (simp_all add: three_cells_def small_case_def defaults_def stand_in_def)
  from boundary_source_first_cell[OF prep N xc]
  have facts: "modulation 3 = [1, 0, 0]" "ReactionDiffusion ?ext (s_args s) = Inr (s_rd s)"
    "rd_modulated_rxns (s_args s) = [0, 1]" "rd_modulation (s_args s) = [[1, 0, 0], [1, 0, 0]]"
    "s_y0 s = \<lparr>shape = [3, 2],
        data = [100000, erfc_real (1 / 2), 0, erfc_real (3 / 2), 0, erfc_real (5 / 2)]\<rparr>"
    and solver: "\<forall>tout' C nfo rd' tot g''. integrate_rd ?ext three_cells 0 = Inr ((tout', C, nfo, rd', tot), g'')
            \<longrightarrow> (\<exists>integr. constant_solution (s_rd s) (s_y0 s) (s_tout s) (1 / 10 ^ 6) (1 / 10 ^ 6) True ''bdf''
                      = Inr integr \<and> C = integr)"
    by (auto simp add: more xs upt_rec[of _ "numeral _"] upt_rec[of _ "Suc _"] numeral_3_eq_3)
  from solver run have "constant_solution (s_rd s) (s_y0 s) (s_tout s) (1 / 10 ^ 6) (1 / 10 ^ 6) True ''bdf'' = Inr C"
    by blast
  with prep grid facts run show ?thesis
    unfolding more by blast
qed

text \<open>
  C5. When \<open>integrate_rd\<close> returns, the second returned value is the output \<open>Cout\<close> of the
  solver run on the prepared system, and the returned scalar \<open>tot_ave_rmsd_over_atol\<close>
  is the average of the per-time series \<open>spat_ave_rmsd_over_atol\<close>: the
  \<open>spat_ave_rmsd_vs_time\<close> of species 1 of that output and the analytic reference field at
  the output times and the cell centres (the array that \<open>analytic\<close> returned, one row per
  output time), divided element by element by \<open>atol\<close>. The series is a local of the
  function; with \<open>plot\<close> set it is handed to the plotting together with the scalar.
\<close>

theorem reported_error_metric:
  assumes "integrate_rd ext p g = Inr ((tout, C, nfo, rd, tot), g')"
  shows "\<exists>s integr c m C1 r.
     integrate_rd_setup ext p g = Inr (s, g') \<and> tout = s_tout s \<and> rd = s_rd s
     \<and> linspace (p_t0 p) (p_tend p) (p_nt p) = Inr tout
     \<and> run ext rd (s_y0 s) tout (p_atol p) (p_rtol p) (\<not> p_num_jacobian p) (p_method p) = Inr integr
     \<and> C = Cout ext integr \<and> nfo = info ext integr
     \<and> analytic (scipy_special_erfc ext) (xcenters ext rd) tout (p_D p) (p_x0 p) (p_xend p) (p_logx p) 1 = Inr c
     \<and> s_Cref s = \<lparr>shape = [nat (p_nt p), m, 1], data = data c\<rparr>
     \<and> 0 < nat (p_nt p) \<and> nat (p_nt p) * m = length (data c) \<and> (0 \<le> p_N p \<longrightarrow> m = nat (p_N p))
     \<and> take_species C 1 = Inr C1
     \<and> spat_ave_rmsd_vs_time ext C1 \<lparr>shape = [nat (p_nt p), m], data = data c\<rparr> = Inr r
     \<and> tot = average (nd_map (\<lambda>v. v / p_atol p) r)
     \<and> (p_plot p \<longrightarrow> plot_results ext p rd integr (s_Cref s) (nd_map (\<lambda>v. v / p_atol p) r) tot = Inr ())"
proof -
  from integrate_rd_InrD[OF assms] obtain s integr spat where
    prep: "integrate_rd_setup ext p g = Inr (s, g')" and tout: "tout = s_tout s" and rd: "rd = s_rd s"
    and run: "run ext (s_rd s) (s_y0 s) (s_tout s) (p_atol p) (p_rtol p) (\<not> p_num_jacobian p) (p_method p) = Inr integr"
    and C: "C = Cout ext integr" and nfo: "nfo = info ext integr"
    and metric: "rmsd_over_atol ext (p_atol p) C (s_Cref s) = Inr (spat, tot)"
    and plot: "p_plot p \<longrightarrow> plot_results ext p (s_rd s) integr (s_Cref s) spat tot = Inr ()"
    by blast
  from integrate_rd_setup_InrD[OF prep] obtain c Cref0 where
    lin: "linspace (p_t0 p) (p_tend p) (p_nt p) = Inr (s_tout s)"
    and c: "analytic (scipy_special_erfc ext) (xcenters ext (s_rd s)) (s_tout s) (p_D p) (p_x0 p) (p_xend p) (p_logx p) 1 = Inr c"
    and Cref: "reshape c [p_nt p, p_N p, 1] = Inr (s_Cref s)"
    and Cref0: "first_entry (s_Cref s) = Inr Cref0"
    by (metis rd_setup.select_convs(1,5))
  from linspace_InrD[OF lin] have nt: "0 \<le> p_nt p" by simp
  from reshape_column_InrD[OF Cref analytic_well_formed[OF c] nt] obtain m where
    Cref_eq: "s_Cref s = \<lparr>shape = [nat (p_nt p), m, 1], data = data c\<rparr>"
    and len: "length (data c) = nat (p_nt p) * m" and m: "0 \<le> p_N p \<longrightarrow> m = nat (p_N p)"
    by blast
  have pos: "0 < nat (p_nt p)"
    using Cref0 by (auto simp: first_entry_def Cref_eq split: if_splits)
  have R0: "take_species \<lparr>shape = [nat (p_nt p), m, 1], data = data c\<rparr> 0
      = Inr \<lparr>shape = [nat (p_nt p), m], data = data c\<rparr>"
    by (rule take_species_column[OF len])
  from metric obtain C1 r where "take_species C 1 = Inr C1"
    and "spat_ave_rmsd_vs_time ext C1 \<lparr>shape = [nat (p_nt p), m], data = data c\<rparr> = Inr r"
    and "tot = average (nd_map (\<lambda>v. v / p_atol p) r)"
    and "spat = nd_map (\<lambda>v. v / p_atol p) r"
    unfolding rmsd_over_atol_def and_then_def Cref_eq R0
    by (auto simp: Let_def split: sum.splits)
  with prep lin c run C nfo plot Cref_eq len[symmetric] m pos show ?thesis
    unfolding tout rd by blast
qed

theorem reported_error_metric_witness:
  "\<exists>s integr c C1 r g' tot.
     integrate_rd (stand_in erfc_real) small_case 0
       = Inr ((array1 [1, 4], integr, (), s_rd s, tot), g')
     \<and> integrate_rd_setup (stand_in erfc_real) small_case 0 = Inr (s, g')
     \<and> constant_solution (s_rd s) (s_y0 s) (array1 [1, 4]) (1 / 10 ^ 6) (1 / 10 ^ 6) True ''bdf'' = Inr integr
     \<and> analytic erfc_real (midpoints (s_rd s)) (array1 [1, 4]) 1 0 4 False 1 = Inr c
     \<and> data c = [erfc_real (1 / 2), erfc_real (3 / 2), erfc_real (1 / 4), erfc_real (3 / 4)]
     \<and> take_species integr 1 = Inr C1
     \<and> data C1 = [erfc_real (1 / 2), erfc_real (3 / 2), erfc_real (1 / 2), erfc_real (3 / 2)]
     \<and> rms_rows C1 \<lparr>shape = [2, 2], data = data c\<rparr> = Inr r
     \<and> tot = average (nd_map (\<lambda>v. v / (1 / 10 ^ 6)) r)"
proof -
  let ?ext = "stand_in erfc_real"
  have "\<exists>s integr tot g'. integrate_rd ?ext small_case 0 = Inr ((array1 [1, 4], integr, (), s_rd s, tot), g')
      \<and> integrate_rd_setup ?ext small_case 0 = Inr (s, g')
      \<and> data (midpoints (s_rd s)) = [1, 3] \<and> shape (midpoints (s_rd s)) = [2]
      \<and> data (s_y0 s) = [100000, erfc_real (1 / 2), 0, erfc_real (3 / 2)] \<and> shape (s_y0 s) = [2, 2]"
    by (simp add: integrate_rd_def) (simp add: eval_defs)
  then obtain s integr tot g' where
    run: "integrate_rd ?ext small_case 0 = Inr ((array1 [1, 4], integr, (), s_rd s, tot), g')"
    and prep: "integrate_rd_setup ?ext small_case 0 = Inr (s, g')"
    and xs: "data (midpoints (s_rd s)) = [1, 3]" "shape (midpoints (s_rd s)) = [2]"
    and y0: "data (s_y0 s) = [100000, erfc_real (1 / 2), 0, erfc_real (3 / 2)]" "shape (s_y0 s) = [2, 2]"
    by blast
  have more: "p_D small_case = 1" "p_x0 small_case = 0" "p_xend small_case = 4" "p_logx small_case = False"
    "p_atol small_case = 1 / 10 ^ 6" "p_rtol small_case = 1 / 10 ^ 6" "p_nt small_case = 2" "p_N small_case = 2"
    "p_num_jacobian small_case = False" "p_method small_case = ''bdf''"
    "scipy_special_erfc ?ext = erfc_real" "run ?ext = constant_solution" "Cout ?ext = (\<lambda>c. c)"
    "xcenters ?ext = midpoints" "spat_ave_rmsd_vs_time ?ext = rms_rows"
    by (simp_all add: small_case_def defaults_def stand_in_def)
  from reported_error_metric[OF run] prep obtain c m C1 r where
    solver: "constant_solution (s_rd s) (s_y0 s) (array1 [1, 4]) (1 / 10 ^ 6) (1 / 10 ^ 6) True ''bdf'' = Inr integr"
    and c: "analytic erfc_real (midpoints (s_rd s)) (array1 [1, 4]) 1 0 4 False 1 = Inr c"
    and m: "m = nat 2"
    and C1: "take_species integr 1 = Inr C1"
    and r: "rms_rows C1 \<lparr>shape = [nat 2, m], data = data c\<rparr> = Inr r"
    and tot: "tot = average (nd_map (\<lambda>v. v / (1 / 10 ^ 6)) r)"
    unfolding more by auto
  have xc: "midpoints (s_rd s) = array1 [1, 3]"
    using xs by (cases "midpoints (s_rd s)") (simp add: array1_def)
  have dc: "data c = [erfc_real (1 / 2), erfc_real (3 / 2), erfc_real (1 / 4), erfc_real (3 / 4)]"
    using c unfolding xc analytic_array1 by auto
  have y0': "s_y0 s = \<lparr>shape = [2, 2], data = [100000, erfc_real (1 / 2), 0, erfc_real (3 / 2)]\<rparr>"
    using y0 by (cases "s_y0 s") simp
  have dC1: "data C1 = [erfc_real (1 / 2), erfc_real (3 / 2), erfc_real (1 / 2), erfc_real (3 / 2)]"
    using solver C1 unfolding y0'
    by (auto simp: constant_solution_def take_species_def size_nd_def array1_def
        upt_rec[of _ "numeral _"] upt_rec[of _ "Suc _"] numeral_2_eq_2)
  from run prep solver c dc C1 dC1 r tot show ?thesis
    unfolding m by (auto simp: numeral_2_eq_2)
qed

lemma unseeded_grids:
  "grid_of (integrate_rd_setup (stand_in erfc_real) (small_case\<lparr>p_random := True, p_random_seed := 0\<rparr>) 0)
     = Some (array1 [0, 2, 4])"
  "grid_of (integrate_rd_setup (stand_in erfc_real) (small_case\<lparr>p_random := True, p_random_seed := 0\<rparr>) 1)
     = Some (array1 [1 / 1000, 2001 / 1000, 4001 / 1000])"
  by (simp_all add: eval_defs)

text \<open>
  C8, as stated, fails for the seed 0: with random perturbation on, two runs with the same
  arguments that start from different random states get different grids.
\<close>

theorem same_seed_different_grids:
  "grid_of (integrate_rd_setup (stand_in erfc_real) (small_case\<lparr>p_random := True, p_random_seed := 0\<rparr>) 0)
     \<noteq> grid_of (integrate_rd_setup (stand_in erfc_real) (small_case\<lparr>p_random := True, p_random_seed := 0\<rparr>) 1)"
  unfolding unseeded_grids by (simp add: array1_def)

text \<open>
  C8, amended. With a seed other than 0 the random state is set from the seed before the
  grid is generated, so two runs with the same arguments give the same grid, the same
  initial condition and the same returned values, whatever random state each starts from.
\<close>

theorem seeded_runs_agree:
  assumes "p_random_seed p \<noteq> 0"
  shows "integrate_rd_setup ext p g1 = integrate_rd_setup ext p g2 \<and> integrate_rd ext p g1 = integrate_rd ext p g2"
proof -
  have "seed_random ext (p_random_seed p) g1 = seed_random ext (p_random_seed p) g2"
    using assms by (simp add: seed_random_def)
  then have "integrate_rd_setup ext p g1 = integrate_rd_setup ext p g2"
    by (simp add: integrate_rd_setup_def)
  then show ?thesis
    by (simp add: integrate_rd_def)
qed

theorem seeded_runs_agree_witness:
  "p_random_seed (small_case\<lparr>p_random := True\<rparr>) \<noteq> 0
   \<and> grid_of (integrate_rd_setup (stand_in erfc_real) (small_case\<lparr>p_random := True\<rparr>) 0)
       = Some (array1 [42 / 1000, 2042 / 1000, 4042 / 1000])
   \<and> integrate_rd_setup (stand_in erfc_real) (small_case\<lparr>p_random := True\<rparr>) 0
       = integrate_rd_setup (stand_in erfc_real) (small_case\<lparr>p_random := True\<rparr>) 1
   \<and> integrate_rd (stand_in erfc_real) (small_case\<lparr>p_random := True\<rparr>) 0
       = integrate_rd (stand_in erfc_real) (small_case\<lparr>p_random := True\<rparr>) 1"
proof -
  have seed: "p_random_seed (small_case\<lparr>p_random := True\<rparr>) \<noteq> 0"
    by (simp add: small_case_def defaults_def)
  have "grid_of (integrate_rd_setup (stand_in erfc_real) (small_case\<lparr>p_random := True\<rparr>) 0)
       = Some (array1 [42 / 1000, 2042 / 1000, 4042 / 1000])"
    by (simp add: eval_defs)
  with seed seeded_runs_agree[OF seed, of "stand_in erfc_real" 0 1] show ?thesis
    by blast
qed

text \<open>
  C10. With \<open>random_seed = 0\<close> the seeding is skipped: the random state the caller had is
  the one the grid is generated from. Two such runs need not get the same grid: with the
  stand-in grid generator and random perturbation on, the runs from the states 0 and 1
  differ.
\<close>

theorem zero_seed_is_not_seeded:
  "(p_random_seed p = 0 \<longrightarrow>
      seed_random ext (p_random_seed p) g = Inr g
      \<and> (\<forall>s g'. integrate_rd_setup ext p g = Inr (s, g') \<longrightarrow>
            generate_grid ext (p_x0 p) (p_xend p) (p_N p) (p_logx p) (p_random p) g = Inr (s_x s, g')))
   \<and> (\<exists>q g1 g2 x1 x2. p_random_seed q = 0
        \<and> grid_of (integrate_rd_setup (stand_in erfc_real) q g1) = Some x1
        \<and> grid_of (integrate_rd_setup (stand_in erfc_real) q g2) = Some x2 \<and> x1 \<noteq> x2)"
proof -
  have skip: "seed_random ext (p_random_seed p) g = Inr g" if "p_random_seed p = 0"
    using that by (simp add: seed_random_def)
  have grid: "generate_grid ext (p_x0 p) (p_xend p) (p_N p) (p_logx p) (p_random p) g = Inr (s_x s, g')"
    if "p_random_seed p = 0" "integrate_rd_setup ext p g = Inr (s, g')" for s g'
  proof -
    from integrate_rd_setup_InrD[OF that(2)] obtain g1 x where
      "seed_random ext (p_random_seed p) g = Inr g1"
      "generate_grid ext (p_x0 p) (p_xend p) (p_N p) (p_logx p) (p_random p) g1 = Inr (x, g')"
      "s_x s = x"
      by (metis rd_setup.select_convs(2))
    with skip[OF that(1)] show ?thesis by simp
  qed
  have "p_random_seed (small_case\<lparr>p_random := True, p_random_seed := 0\<rparr>) = 0"
    by simp
  moreover have "array1 [0, 2, 4] \<noteq> array1 [1 / 1000, 2001 / 1000, 4001 / 1000]"
    by (simp add: array1_def)
  ultimately have "\<exists>q g1 g2 x1 x2. p_random_seed q = 0
        \<and> grid_of (integrate_rd_setup (stand_in erfc_real) q g1) = Some x1
        \<and> grid_of (integrate_rd_setup (stand_in erfc_real) q g2) = Some x2 \<and> x1 \<noteq> x2"
    using unseeded_grids by blast
  with skip grid show ?thesis by blast
qed

theorem zero_seed_is_not_seeded_witness:
  "p_random_seed (small_case\<lparr>p_random := True, p_random_seed := 0\<rparr>) = 0
   \<and> seed_random (stand_in erfc_real) 0 (7::nat) = Inr 7
   \<and> (\<exists>s g'. integrate_rd_setup (stand_in erfc_real) (small_case\<lparr>p_random := True, p_random_seed := 0\<rparr>) 7 = Inr (s, g')
        \<and> equidistant_grid 0 4 2 False True 7 = Inr (s_x s, g'))"
proof -
  let ?p = "small_case\<lparr>p_random := True, p_random_seed := 0\<rparr>"
  have zero: "p_random_seed ?p = 0" by simp
  have "\<exists>s g'. integrate_rd_setup (stand_in erfc_real) ?p 7 = Inr (s, g')"
    by (simp add: eval_defs)
  then obtain s g' where prep: "integrate_rd_setup (stand_in erfc_real) ?p 7 = Inr (s, g')" by blast
  have more: "p_x0 ?p = 0" "p_xend ?p = 4" "p_N ?p = 2" "p_logx ?p = False" "p_random ?p = True"
    "generate_grid (stand_in erfc_real) = equidistant_grid"
    by (simp_all add: small_case_def defaults_def stand_in_def)
  from zero_seed_is_not_seeded[of ?p "stand_in erfc_real" 7] zero prep
  have "seed_random (stand_in erfc_real) 0 (7::nat) = Inr 7"
    and "equidistant_grid 0 4 2 False True 7 = Inr (s_x s, g')"
    unfolding more by auto
  with zero prep show ?thesis by blast
qed

subsection \<open>The sweep\<close>

lemmas sweep_eval_defs = main_def ladder_def sweep_point_def combinations_def sweep_stand_in_def
  np_log_def fit_and_draw_def np_slice_to_def get_def
  float_literal_def int_literal_def second_order_def diverging_at_16_def average_axis1_def
  and_then_def split_comma_literals

text \<open>
  C7. Without an explicit list the ladder is \<open>8 * 2 ^ i\<close> for \<open>i\<close> from 0 to \<open>nNs - 1\<close>,
  which for the default \<open>nNs = 7\<close> is 8, 16, 32, 64, 128, 256, 512; with an explicit list
  whose comma-separated pieces are the integers \<open>l\<close>, the ladder is \<open>l\<close> and \<open>nNs\<close> is its
  length.
\<close>

theorem resolution_ladder:
  "ladder ext nNs None = Inr (map (\<lambda>i. 8 * 2 ^ i) [0..<nat nNs], nNs)
   \<and> ladder ext 7 None = Inr ([8, 16, 32, 64, 128, 256, 512], 7)
   \<and> (map (py_int ext) (split_comma s) = map Inr l \<longrightarrow>
         ladder ext nNs (Some s) = Inr (l, int (length l)))"
proof -
  have "map (\<lambda>i. 8 * 2 ^ i) [0..<nat 7] = [8, 16, 32, 64, 128, 256, 512 :: int]"
    by (simp add: upt_rec[of _ "numeral _"] upt_rec[of _ "Suc _"])
  moreover have "ladder ext nNs (Some s) = Inr (l, int (length l))"
    if "map (py_int ext) (split_comma s) = map Inr l"
    using that by (simp add: ladder_def and_then_def mapM_Inr_iff[symmetric])
  ultimately show ?thesis
    by (simp add: ladder_def)
qed

theorem resolution_ladder_witness:
  "map (py_int (sweep_stand_in second_order)) (split_comma ''8,16,32'') = map Inr [8, 16, 32]
   \<and> ladder (sweep_stand_in second_order) 7 (Some ''8,16,32'') = Inr ([8, 16, 32], 3)"
proof -
  have pieces: "map (py_int (sweep_stand_in second_order)) (split_comma ''8,16,32'') = map Inr [8, 16, 32]"
    by (simp add: sweep_stand_in_def int_literal_def)
  with resolution_ladder[of "sweep_stand_in second_order" 7 "''8,16,32''" "[8, 16, 32]"]
  show ?thesis by simp
qed





lemma split_comma_nonempty: "split_comma s \<noteq> []"
  by (induction s) (auto split: list.splits)

lemma mapM_length: "mapM f xs = Inr ys \<Longrightarrow> length ys = length xs"
  using mapM_Inr_iff[of f xs ys] by (metis length_map)

lemma combinations_nonempty: "rates \<noteq> [] \<Longrightarrow> combinations rates \<noteq> []"
  by (cases rates) (simp_all add: combinations_def)

lemma fit_and_draw_raises:
  "fit_and_draw ext nfit Ns nNs gi ri si nstencil err logNs logerr \<noteq> Inr d"
  by (cases "get nfit si") (simp_all add: fit_and_draw_def and_then_def np_slice_to_def)

lemma sweep_point_plot_raises: "\<exists>e. sweep_point ext True nfit Ns nNs c = Inl e"
proof -
  obtain gi g ri rate si nstencil where c: "c = ((gi, g), (ri, rate), (si, nstencil))"
    by (metis prod.exhaust)
  have "sweep_point ext True nfit Ns nNs c \<noteq> Inr l" for l
    unfolding c sweep_point_def and_then_def
    by (auto simp: Let_def fit_and_draw_raises split: sum.splits)
  then show ?thesis
    by (cases "sweep_point ext True nfit Ns nNs c") auto
qed

lemma mapM_first_raises:
  assumes "xs \<noteq> []" and "\<exists>e. f (hd xs) = Inl e"
  shows "\<exists>e. mapM f xs = Inl e"
  using assms by (cases xs) (auto simp: and_then_def)

text \<open>
  C4. The fit that the claim describes is never made. With \<open>plot\<close> set, the sweep with the
  default arguments ends with a \<open>TypeError\<close> at the first combination, at the slice of
  line 81 whose bound \<open>nfit[si]\<close> is a float; for all arguments and collaborators a
  plotting sweep ends with an exception. Without \<open>plot\<close> no fit is attempted and nothing
  is drawn.
\<close>

theorem plotting_sweep_raises:
  "main (sweep_stand_in second_order) True ''None'' 7 None ''0,0.1'' ''7,5,4'' = Inl TypeError
   \<and> (\<exists>e. main ext True savefig nNs Ns rates nfit = Inl e)
   \<and> (case main ext False savefig nNs Ns rates nfit of Inl e \<Rightarrow> True | Inr ds \<Rightarrow> ds = [])"
proof -
  have default: "main (sweep_stand_in second_order) True ''None'' 7 None ''0,0.1'' ''7,5,4'' = Inl TypeError"
    by (simp add: sweep_eval_defs upt_rec[of _ "numeral _"] upt_rec[of _ "Suc _"])
  have always: "\<exists>e. main ext True savefig nNs Ns rates nfit = Inl e"
  proof (cases "mapM (py_float ext) (split_comma rates)")
    case (Inl e)
    then show ?thesis
      by (auto simp: main_def and_then_def split: sum.splits prod.splits)
  next
    case (Inr rates')
    from mapM_length[OF Inr] have "rates' \<noteq> []"
      using split_comma_nonempty[of rates] by auto
    then have "combinations rates' \<noteq> []"
      by (rule combinations_nonempty)
    then have "\<exists>e. mapM (sweep_point ext True nfit' Ns' nNs') (combinations rates') = Inl e"
      for nfit' Ns' nNs'
      by (rule mapM_first_raises) (rule sweep_point_plot_raises)
    then obtain e where
      "mapM (sweep_point ext True nfit' Ns' nNs') (combinations rates') = Inl (e nfit' Ns' nNs')"
      for nfit' Ns' nNs'
      by metis
    then show ?thesis
      using Inr by (auto simp: main_def and_then_def split: sum.splits prod.splits)
  qed
  have "case main ext False savefig nNs Ns rates nfit of Inl e \<Rightarrow> True | Inr ds \<Rightarrow> ds = []"
    by (auto simp: main_def and_then_def split: sum.splits prod.splits)
  with default always show ?thesis by blast
qed

end
